theory Spec2Isabelle
  imports Complex_Main
begin

section \<open>C++ integers, failures and vectors\<close>

text \<open>
  The code of \<^verbatim>\<open>PowerSpectrum.cpp\<close> keeps sizes in variables declared \<^verbatim>\<open>int\<close>
  (32 bits, two's complement) and compares them with \<^verbatim>\<open>size_t\<close> values (64 bits,
  unsigned). Values are modelled as \<open>int\<close> and \<open>nat\<close>; every place where the source
  stores a value in an \<^verbatim>\<open>int\<close> goes through \<open>to_int\<close>, which wraps around, and every
  place where an \<^verbatim>\<open>int\<close> meets a \<^verbatim>\<open>size_t\<close> goes through \<open>to_size_t\<close>. A product
  of two \<^verbatim>\<open>int\<close>s that overflows is undefined in C++; it gets the value the machine
  computes, the wrapped one.
\<close>

definition INT_MAX :: int where
  "INT_MAX = 2147483647"

definition to_int :: "int \<Rightarrow> int" where
  "to_int x = (x + 2147483648) mod 4294967296 - 2147483648"

definition to_size_t :: "int \<Rightarrow> nat" where
  "to_size_t x = nat (x mod 18446744073709551616)"

text \<open>
  The ways a call ends without returning a value. First the exceptions the code
  throws, by their C++ class, with the message. The spec's InvalidConfiguration and
  InvalidArgument are both \<^verbatim>\<open>std::invalid_argument\<close> (thrown by the constructor and
  by \<^verbatim>\<open>batchApply\<close>); its InternalInconsistency is the \<^verbatim>\<open>std::logic_error\<close> of
  \<^verbatim>\<open>batchApply\<close>; \<^verbatim>\<open>std::runtime_error\<close> is what the IPP set-up throws.
  \<^verbatim>\<open>std::length_error\<close> is what the constructor of \<^verbatim>\<open>std::vector\<close> throws for a
  size above \<^verbatim>\<open>max_size()\<close>. Then the two ends that give the caller no exception to
  catch: \<open>terminate\<close>, the process ended by \<^verbatim>\<open>std::terminate\<close>, and
  \<open>undefined_behaviour\<close>, a read outside a vector, for which C++ defines no outcome.
\<close>

datatype failure =
    invalid_argument string
  | logic_error string
  | length_error string
  | runtime_error string
  | terminate
  | undefined_behaviour

fun is_invalid_argument :: "failure + 'b \<Rightarrow> bool" where
  "is_invalid_argument (Inl (invalid_argument m)) = True"
| "is_invalid_argument r = False"

fun is_logic_error :: "failure + 'b \<Rightarrow> bool" where
  "is_logic_error (Inl (logic_error m)) = True"
| "is_logic_error r = False"

text \<open>
  \<^verbatim>\<open>std::vector<float> v(n)\<close> for an \<^verbatim>\<open>int\<close> expression \<open>n\<close>: the count is converted
  to \<^verbatim>\<open>size_t\<close>, so a negative \<open>n\<close> asks for at least \<open>2^64 - 2^31\<close> elements, more
  than any \<^verbatim>\<open>max_size()\<close>, and the constructor throws. Otherwise the vector holds \<open>n\<close>
  zeros. Running out of memory is not modelled.
\<close>

definition new_vector :: "int \<Rightarrow> failure + ('a::zero) list" where
  "new_vector n =
     (if n < 0 then Inl (length_error ''cannot create std::vector larger than max_size()'')
      else Inr (replicate (nat n) 0))"

text \<open>
  \<^verbatim>\<open>std::copy(src.begin(), src.end(), dst.begin() + off)\<close>: the elements of \<open>src\<close>
  overwrite those of \<open>dst\<close> from index \<open>off\<close>. The size of \<open>dst\<close> never changes. A
  copy that runs past the end of \<open>dst\<close> is undefined in C++; here it stops at the end.
\<close>

definition copy_to :: "'a list \<Rightarrow> nat \<Rightarrow> 'a list \<Rightarrow> 'a list" where
  "copy_to dst off src = take (length dst) (take off dst @ src @ drop (off + length src) dst)"

section \<open>FeatureParams\<close>

text \<open>
  Modelled from the spec: \<^verbatim>\<open>FeatureParams.h\<close> is not among the sources. The spec
  (section 3) lists the fields sampling frequency, frame size and stride in
  milliseconds, transform length, dither amplitude, pre-emphasis coefficient, window
  type, the zero-mean flag and the number \<open>K\<close> of retained spectral bins, and the
  derived quantities samplesPerFrame and samplesPerStride, for which it gives no
  formula: they are carried as the fields \<open>numFrameSizeSamples\<close> and
  \<open>numFrameStrideSamples\<close>, named after the methods the code calls. The code reads
  \<open>K\<close> through \<^verbatim>\<open>filterFreqResponseLen()\<close> and \<^verbatim>\<open>powSpecFeatSz()\<close>.
\<close>

datatype WindowType = HAMMING | HANNING | RECTANGULAR

record 'a FeatureParams =
  samplingFreq :: int
  frameSizeMs :: int
  frameStrideMs :: int
  windowType :: WindowType
  preemCoef :: 'a
  ditherVal :: 'a
  zeroMeanFrame :: bool
  numFrameSizeSamples :: int
  numFrameStrideSamples :: int
  nFft :: nat
  filterFreqResponseLen :: nat

text \<open>
  Modelled from the spec: \<^verbatim>\<open>powSpecFeatSz()\<close> is the output feature size per frame,
  which the spec says is \<open>K\<close>.
\<close>

definition powSpecFeatSz :: "'a FeatureParams \<Rightarrow> nat" where
  "powSpecFeatSz p = filterFreqResponseLen p"

text \<open>
  Modelled from the spec (section 4.2):
  \<open>numFrames(N) = max(0, floor((N - samplesPerFrame) / samplesPerStride) + 1)\<close>.
\<close>

definition numFrames :: "'a FeatureParams \<Rightarrow> int \<Rightarrow> int" where
  "numFrames p inSize =
     max 0 ((inSize - numFrameSizeSamples p) div numFrameStrideSamples p + 1)"

text \<open>
  Modelled from the spec (section 4.2): \<^verbatim>\<open>frameSignal\<close> of \<^verbatim>\<open>SpeechUtils.h\<close> is not
  among the sources. It slides a window of samplesPerFrame samples over the input
  with stride samplesPerStride and returns the \<open>numFrames\<close> frames one after the
  other; trailing samples that fill no frame are dropped.
\<close>

definition frameSignal :: "'a list \<Rightarrow> 'a FeatureParams \<Rightarrow> 'a list" where
  "frameSignal input p =
     concat (map (\<lambda>f. take (nat (numFrameSizeSamples p))
                        (drop (f * nat (numFrameStrideSamples p)) input))
                 [0..<nat (numFrames p (int (length input)))])"

section \<open>PowerSpectrum\<close>

text \<open>
  The object. \<^verbatim>\<open>Dither\<close>, \<^verbatim>\<open>PreEmphasis\<close> and \<^verbatim>\<open>Windowing\<close> are classes whose
  sources are absent: each member is the function its object applies to the frame
  buffer (\<^verbatim>\<open>dither_.apply\<close>, \<^verbatim>\<open>preEmphasis_.applyInPlace\<close>,
  \<^verbatim>\<open>windowing_.applyInPlace\<close>). \<open>fftSetup\<close> stands for the transform of the FFT
  library (vDSP or IPP) with its plan and scratch memory: from the content of the
  input buffer it gives the value the library writes for bin \<open>k\<close>. The members are
  named as in the source, without the final underscore. Samples are of any type
  \<open>'a\<close> with the arithmetic of a field; the rounding of \<^verbatim>\<open>float\<close> is not modelled.
\<close>

record 'a PowerSpectrum =
  featParams :: "'a FeatureParams"
  dither :: "'a list \<Rightarrow> 'a list"
  preEmphasis :: "'a list \<Rightarrow> 'a list"
  windowing :: "'a list \<Rightarrow> 'a list"
  inFftBuf :: "'a list"
  outFftBuf :: "'a list"
  fftSetup :: "'a list \<Rightarrow> nat \<Rightarrow> 'a"

text \<open>\<^verbatim>\<open>PowerSpectrum::validatePowSpecParams\<close>: the five checks, in the order of the source.\<close>

definition validatePowSpecParams :: "'a FeatureParams \<Rightarrow> failure + unit" where
  "validatePowSpecParams p =
     (if samplingFreq p \<le> 0 then
        Inl (invalid_argument ''PowerSpectrum: samplingFreq is negative'')
      else if frameSizeMs p \<le> 0 then
        Inl (invalid_argument ''PowerSpectrum: frameSizeMs is negative'')
      else if frameStrideMs p \<le> 0 then
        Inl (invalid_argument ''PowerSpectrum: frameStrideMs is negative'')
      else if numFrameSizeSamples p \<le> 0 then
        Inl (invalid_argument ''PowerSpectrum: frameSizeMs is too low'')
      else if numFrameStrideSamples p \<le> 0 then
        Inl (invalid_argument ''PowerSpectrum: frameStrideMs is too low'')
      else Inr ())"

text \<open>\<^verbatim>\<open>PowerSpectrum::outputSize\<close>: the product, returned as an \<^verbatim>\<open>int\<close>.\<close>

definition outputSize :: "'a PowerSpectrum \<Rightarrow> int \<Rightarrow> int" where
  "outputSize this inputSz =
     to_int (int (powSpecFeatSz (featParams this)) * numFrames (featParams this) inputSz)"

text \<open>
  One pass of the zero-mean loop of \<^verbatim>\<open>powSpectrumImpl\<close>, for frame \<open>f\<close>:
  \<^verbatim>\<open>std::accumulate\<close> from the left, the division by \<^verbatim>\<open>nSamples\<close>, and the
  subtraction written back in place.
\<close>

definition zeroMeanFrame_step :: "int \<Rightarrow> nat \<Rightarrow> ('a::field) list \<Rightarrow> 'a list" where
  "zeroMeanFrame_step nSamples f frames =
     (let begin = f * to_size_t nSamples;
          frame = take (nat nSamples) (drop begin frames);
          mean = foldl (+) 0 frame / of_int nSamples
      in copy_to frames begin (map (\<lambda>x. x - mean) frame))"

text \<open>
  One pass of the transform loop, for frame \<open>f\<close>: the frame is copied to the start of
  \<^verbatim>\<open>inFftBuf_\<close>, the library transforms the buffer, and the first \<open>K\<close> values are
  written to \<^verbatim>\<open>dft\<close> from index \<open>f * K\<close>. The state is the pair of \<^verbatim>\<open>dft\<close> and
  \<^verbatim>\<open>inFftBuf_\<close>.
\<close>

definition fft_step ::
  "('a list \<Rightarrow> nat \<Rightarrow> 'a) \<Rightarrow> int \<Rightarrow> int \<Rightarrow> 'a list \<Rightarrow> nat \<Rightarrow> 'a list \<times> 'a list \<Rightarrow> 'a list \<times> 'a list"
where
  "fft_step transform nSamples K frames f st =
     (let frame = take (nat nSamples) (drop (f * to_size_t nSamples) frames);
          buf = copy_to (snd st) 0 frame
      in (copy_to (fst st) (f * to_size_t K) (map (transform buf) [0..<to_size_t K]), buf))"

text \<open>
  \<^verbatim>\<open>PowerSpectrum::powSpectrumImpl\<close>. The result is the returned vector or the
  exception, and the object with its input buffer as the call leaves it. The lock
  on \<^verbatim>\<open>fftMutex_\<close> has no effect on a single thread and is left out.
\<close>

definition powSpectrumImpl ::
  "('a::field) PowerSpectrum \<Rightarrow> 'a list \<Rightarrow> (failure + 'a list) \<times> 'a PowerSpectrum"
where
  "powSpectrumImpl this frames0 =
     (let p = featParams this;
          nSamples = to_int (numFrameSizeSamples p);
          nFrames = to_int (int (length frames0 div to_size_t nSamples));
          K = to_int (int (filterFreqResponseLen p));
          frames1 = (if ditherVal p \<noteq> 0 then dither this frames0 else frames0);
          frames2 = (if zeroMeanFrame p
                     then fold (zeroMeanFrame_step nSamples) [0..<to_size_t nFrames] frames1
                     else frames1);
          frames3 = (if preemCoef p \<noteq> 0 then preEmphasis this frames2 else frames2);
          frames4 = windowing this frames3
      in case new_vector (to_int (K * nFrames)) of
           Inl e \<Rightarrow> (Inl e, this)
         | Inr dft0 \<Rightarrow>
             (let st = fold (fft_step (fftSetup this) nSamples K frames4)
                            [0..<to_size_t nFrames] (dft0, inFftBuf this)
              in (Inr (fst st), this\<lparr>inFftBuf := snd st\<rparr>)))"

text \<open>\<^verbatim>\<open>PowerSpectrum::apply\<close> (\<open>apply\<close> is a keyword of Isabelle).\<close>

definition PowerSpectrum_apply ::
  "('a::field) PowerSpectrum \<Rightarrow> 'a list \<Rightarrow> (failure + 'a list) \<times> 'a PowerSpectrum"
where
  "PowerSpectrum_apply this input =
     (let frames = frameSignal input (featParams this)
      in if frames = [] then (Inr [], this) else powSpectrumImpl this frames)"

text \<open>
  The buffer of utterance \<open>b\<close> in \<^verbatim>\<open>batchApply\<close>:
  \<^verbatim>\<open>start = input.begin() + b * N; inputBuf(start, start + N)\<close>, the product being one
  of two \<^verbatim>\<open>int\<close>s. The range has to lie inside the input: with an offset \<open>b * N\<close>
  that has wrapped to a negative number, a negative \<open>N\<close>, or an end past the end of
  the input, the constructor of \<^verbatim>\<open>inputBuf\<close> reads outside the vector.
\<close>

definition utterance :: "'a list \<Rightarrow> int \<Rightarrow> nat \<Rightarrow> failure + 'a list" where
  "utterance input N b =
     (let start = to_int (int b * N)
      in if 0 \<le> start \<and> 0 \<le> N \<and> start + N \<le> int (length input)
         then Inr (take (nat N) (drop (nat start) input))
         else Inl undefined_behaviour)"

text \<open>
  The body of the loop of \<^verbatim>\<open>batchApply\<close> is the block of
  \<^verbatim>\<open>#pragma omp parallel for num_threads(batchSz)\<close>, and nothing in it catches an
  exception. OpenMP requires an exception thrown inside a parallel region to be
  caught inside it, by the thread that threw it; one that is not caught there
  cannot reach the code after the region, and the program ends through
  \<^verbatim>\<open>std::terminate\<close>. The caller of \<^verbatim>\<open>batchApply\<close> never receives it. (Compiled
  without OpenMP the pragma is ignored, and the exception would leave the loop.)
\<close>

definition thrown_in_parallel_region :: "failure \<Rightarrow> failure" where
  "thrown_in_parallel_region e =
     (case e of undefined_behaviour \<Rightarrow> undefined_behaviour | _ \<Rightarrow> terminate)"

text \<open>
  The loop of \<^verbatim>\<open>PowerSpectrum::batchApply\<close> over the utterances \<open>b\<close>. \<^verbatim>\<open>apply\<close> is
  a virtual method: \<open>ap\<close> is the one the object has. The utterances write to
  disjoint parts of \<^verbatim>\<open>feat\<close>; the model runs them in the order of \<open>b\<close>, each on the
  object as the one before left it. The exceptions of the body are those of
  \<^verbatim>\<open>apply\<close> and the \<^verbatim>\<open>std::logic_error\<close> of the size check; both are thrown inside
  the parallel region.
\<close>

fun batchApply_loop ::
  "('s \<Rightarrow> 'a list \<Rightarrow> (failure + 'a list) \<times> 's) \<Rightarrow> 'a list \<Rightarrow> int \<Rightarrow> int \<Rightarrow>
   nat list \<Rightarrow> 'a list \<Rightarrow> 's \<Rightarrow> (failure + 'a list) \<times> 's"
where
  "batchApply_loop ap input N outputSz [] feat this = (Inr feat, this)"
| "batchApply_loop ap input N outputSz (b # bs) feat this =
     (case utterance input N b of
        Inl e \<Rightarrow> (Inl e, this)
      | Inr inputBuf \<Rightarrow>
          (case ap this inputBuf of
             (Inl e, this') \<Rightarrow> (Inl (thrown_in_parallel_region e), this')
           | (Inr curFeat, this') \<Rightarrow>
               if to_size_t outputSz \<noteq> length curFeat then
                 (Inl (thrown_in_parallel_region
                         (logic_error ''PowerSpectrum: apply() returned wrong size'')), this')
               else
                 batchApply_loop ap input N outputSz bs
                   (copy_to feat (b * length curFeat) curFeat) this'))"

text \<open>
  \<^verbatim>\<open>PowerSpectrum::batchApply\<close>, with the virtual methods \<^verbatim>\<open>apply\<close> and
  \<^verbatim>\<open>outputSize\<close> of the object as \<open>ap\<close> and \<open>os\<close>. \<^verbatim>\<open>batchSz\<close> is positive where it is
  converted to \<^verbatim>\<open>size_t\<close>, so the conversion keeps its value. The two checks of the
  arguments and the creation of \<^verbatim>\<open>feat\<close> stand before the parallel region: their
  exceptions reach the caller.
\<close>

definition batchApply ::
  "('s \<Rightarrow> 'a list \<Rightarrow> (failure + ('a::zero) list) \<times> 's) \<Rightarrow> ('s \<Rightarrow> int \<Rightarrow> int) \<Rightarrow>
   's \<Rightarrow> 'a list \<Rightarrow> int \<Rightarrow> (failure + 'a list) \<times> 's"
where
  "batchApply ap os this input batchSz =
     (if batchSz \<le> 0 then
        (Inl (invalid_argument ''PowerSpectrum: negative batchSz''), this)
      else if length input mod nat batchSz \<noteq> 0 then
        (Inl (invalid_argument ''PowerSpectrum: input size is not divisible by batchSz''), this)
      else
        (let N = to_int (int (length input div nat batchSz));
             outputSz = os this N
         in case new_vector (to_int (outputSz * batchSz)) of
              Inl e \<Rightarrow> (Inl e, this)
            | Inr feat \<Rightarrow> batchApply_loop ap input N outputSz [0..<nat batchSz] feat this))"

text \<open>The parameters pass the five checks.\<close>

definition valid_params :: "'a FeatureParams \<Rightarrow> bool" where
  "valid_params p = (validatePowSpecParams p = Inr ())"

section \<open>The constructor\<close>

text \<open>
  The classes the constructor builds its members from, all absent from the sources,
  are parameters: what \<^verbatim>\<open>Dither(ditherVal)\<close>, \<^verbatim>\<open>PreEmphasis(preemCoef, N)\<close> and
  \<^verbatim>\<open>Windowing(N, windowType)\<close> apply to a frame buffer, what the construction of
  each throws, if it throws (\<open>None\<close> when the object is constructed), and what the
  FFT library computes for a transform length. The library is chosen when the code
  is compiled (\<^verbatim>\<open>FL_LIBRARIES_USE_ACCELERATE\<close> or \<^verbatim>\<open>FL_LIBRARIES_USE_IPP\<close>); for IPP
  the three booleans say whether \<^verbatim>\<open>ippsFFTGetSize_R_32f\<close> returns \<^verbatim>\<open>ippStsNoErr\<close>,
  whether it reports \<^verbatim>\<open>sizeInit > 0\<close>, and whether \<^verbatim>\<open>ippsFFTInit_R_32f\<close> returns
  \<^verbatim>\<open>ippStsNoErr\<close>.
\<close>

datatype FFT_LIBRARY = ACCELERATE | IPP bool bool bool

record 'a Classes =
  Dither :: "'a \<Rightarrow> 'a list \<Rightarrow> 'a list"
  PreEmphasis :: "'a \<Rightarrow> int \<Rightarrow> 'a list \<Rightarrow> 'a list"
  Windowing :: "int \<Rightarrow> WindowType \<Rightarrow> 'a list \<Rightarrow> 'a list"
  Transform :: "nat \<Rightarrow> 'a list \<Rightarrow> nat \<Rightarrow> 'a"
  library :: FFT_LIBRARY
  Dither_throws :: "'a \<Rightarrow> failure option"
  PreEmphasis_throws :: "'a \<Rightarrow> int \<Rightarrow> failure option"
  Windowing_throws :: "int \<Rightarrow> WindowType \<Rightarrow> failure option"

text \<open>The object as the constructor leaves it when nothing throws.\<close>

definition PowerSpectrum_members :: "('a::zero) Classes \<Rightarrow> 'a FeatureParams \<Rightarrow> 'a PowerSpectrum" where
  "PowerSpectrum_members env params =
     \<lparr>featParams = params,
      dither = Dither env (ditherVal params),
      preEmphasis = PreEmphasis env (preemCoef params) (numFrameSizeSamples params),
      windowing = Windowing env (numFrameSizeSamples params) (windowType params),
      inFftBuf = replicate (nFft params) 0,
      outFftBuf = replicate (2 * nFft params) 0,
      fftSetup = Transform env (nFft params)\<rparr>"

text \<open>
  \<^verbatim>\<open>PowerSpectrum::PowerSpectrum\<close>. C++ runs the member initialisers before the body
  and in the order of the declarations in the class: \<^verbatim>\<open>dither_(params.ditherVal)\<close>,
  \<^verbatim>\<open>preEmphasis_(params.preemCoef, params.numFrameSizeSamples())\<close>,
  \<^verbatim>\<open>windowing_(params.numFrameSizeSamples(), params.windowType)\<close>; an exception of one
  of them is the constructor's. The body follows: \<^verbatim>\<open>validatePowSpecParams()\<close>, the two
  \<^verbatim>\<open>resize\<close>, and the set-up of the FFT library. The text of the two IPP messages
  ends with the transform order, which is left out.
\<close>

definition PowerSpectrum_new ::
  "('a::zero) Classes \<Rightarrow> 'a FeatureParams \<Rightarrow> failure + 'a PowerSpectrum"
where
  "PowerSpectrum_new env params =
     (case Dither_throws env (ditherVal params) of
        Some e \<Rightarrow> Inl e
      | None \<Rightarrow>
     (case PreEmphasis_throws env (preemCoef params) (numFrameSizeSamples params) of
        Some e \<Rightarrow> Inl e
      | None \<Rightarrow>
     (case Windowing_throws env (numFrameSizeSamples params) (windowType params) of
        Some e \<Rightarrow> Inl e
      | None \<Rightarrow>
     (case validatePowSpecParams params of
        Inl e \<Rightarrow> Inl e
      | Inr u \<Rightarrow>
          (case library env of
             ACCELERATE \<Rightarrow> Inr (PowerSpectrum_members env params)
           | IPP getSize_ok sizeInit_pos init_ok \<Rightarrow>
               if \<not> getSize_ok then
                 Inl (runtime_error ''ippsFFTGetSize_R_32f failed on order'')
               else if \<not> init_ok then
                 Inl (runtime_error ''ippsFFTInit_R_32f failed on order'')
               else Inr (PowerSpectrum_members env params))))))"

text \<open>The three members are constructed: no initialiser throws.\<close>

definition members_constructed :: "'a Classes \<Rightarrow> 'a FeatureParams \<Rightarrow> bool" where
  "members_constructed env params =
     (Dither_throws env (ditherVal params) = None \<and>
      PreEmphasis_throws env (preemCoef params) (numFrameSizeSamples params) = None \<and>
      Windowing_throws env (numFrameSizeSamples params) (windowType params) = None)"

definition backend_ok :: "FFT_LIBRARY \<Rightarrow> bool" where
  "backend_ok l = (case l of ACCELERATE \<Rightarrow> True | IPP g s i \<Rightarrow> g \<and> i)"

text \<open>
  Modelled from the spec (section 4.6): \<^verbatim>\<open>Windowing.h\<close> is not among the sources. The
  window's coefficient vector, of length samplesPerFrame, is computed once, when the
  \<^verbatim>\<open>Windowing\<close> object is constructed; creating a vector of that length is what the
  construction can fail with.
\<close>

definition Windowing_coefficients_throw :: "int \<Rightarrow> WindowType \<Rightarrow> failure option" where
  "Windowing_coefficients_throw N w =
     (case (new_vector N :: failure + real list) of Inl e \<Rightarrow> Some e | Inr coefs \<Rightarrow> None)"

section \<open>What the spec says, for the refinement claims\<close>

text \<open>
  Calling a method \<open>ap\<close> on each buffer of a list in turn, on the same object: the
  results in order.
\<close>

fun apply_each ::
  "('s \<Rightarrow> 'a list \<Rightarrow> (failure + 'b list) \<times> 's) \<Rightarrow> 's \<Rightarrow> 'a list list \<Rightarrow> (failure + 'b list) list"
where
  "apply_each ap this [] = []"
| "apply_each ap this (u # us) = fst (ap this u) # apply_each ap (snd (ap this u)) us"

text \<open>The results concatenated in order; the first exception, if any, instead.\<close>

fun concat_results :: "(failure + 'b list) list \<Rightarrow> failure + 'b list" where
  "concat_results [] = Inr []"
| "concat_results (Inl e # rs) = Inl e"
| "concat_results (Inr out # rs) =
     (case concat_results rs of Inl e \<Rightarrow> Inl e | Inr rest \<Rightarrow> Inr (out @ rest))"

text \<open>Slice \<open>b\<close> of the consecutive slices of \<open>n\<close> samples each.\<close>

definition slice_of :: "'a list \<Rightarrow> nat \<Rightarrow> nat \<Rightarrow> 'a list" where
  "slice_of input n b = take n (drop (b * n) input)"

text \<open>
  Section 4.8 and 8: \<^verbatim>\<open>apply\<close> on each of the \<open>B\<close> equal-length slices, the results
  concatenated in slice order.
\<close>

definition apply_each_slice :: "('a::field) PowerSpectrum \<Rightarrow> 'a list \<Rightarrow> nat \<Rightarrow> failure + 'a list" where
  "apply_each_slice this input B =
     concat_results
       (apply_each PowerSpectrum_apply this
          (map (slice_of input (length input div B)) [0..<B]))"

text \<open>Whether a result of \<^verbatim>\<open>apply\<close> is a vector of \<open>m\<close> elements.\<close>

definition right_size :: "nat \<Rightarrow> failure + 'b list \<Rightarrow> bool" where
  "right_size m r = (case r of Inl e \<Rightarrow> False | Inr out \<Rightarrow> length out = m)"

text \<open>
  The stages of section 4 on a frame matrix of \<open>n\<close> frames of \<open>s\<close> samples, stored
  frame after frame. \<open>frame_of\<close> is frame \<open>f\<close>; \<open>zero_mean\<close> subtracts from a frame
  its arithmetic mean (section 4.4); \<open>first_bins\<close> is the transform of one frame,
  copied to the start of the input buffer, cut to the first \<open>K\<close> bins (section
  4.7); \<open>per_frame\<close> applies a function to each frame and lays the results out frame
  after frame; \<open>stage_if\<close> is a conditional stage.
\<close>

definition frame_of :: "nat \<Rightarrow> 'a list \<Rightarrow> nat \<Rightarrow> 'a list" where
  "frame_of s frames f = take s (drop (f * s) frames)"

definition zero_mean :: "('a::field) list \<Rightarrow> 'a list" where
  "zero_mean frame = map (\<lambda>x. x - foldl (+) 0 frame / of_nat (length frame)) frame"

definition first_bins :: "'a PowerSpectrum \<Rightarrow> 'a list \<Rightarrow> 'a list" where
  "first_bins this frame =
     map (fftSetup this (copy_to (inFftBuf this) 0 frame))
         [0..<filterFreqResponseLen (featParams this)]"

definition per_frame :: "nat \<Rightarrow> nat \<Rightarrow> ('a list \<Rightarrow> 'b list) \<Rightarrow> 'a list \<Rightarrow> 'b list" where
  "per_frame n s g frames = concat (map (\<lambda>f. g (frame_of s frames f)) [0..<n])"

definition stage_if :: "bool \<Rightarrow> ('a \<Rightarrow> 'a) \<Rightarrow> 'a \<Rightarrow> 'a" where
  "stage_if c g x = (if c then g x else x)"

text \<open>
  Section 4.8: dither, zero-mean, pre-emphasis, windowing, per-frame transform, in
  this order, the first and the third only for a non-zero parameter, the second only
  when the flag is set.
\<close>

definition pipeline :: "('a::field) PowerSpectrum \<Rightarrow> 'a list \<Rightarrow> 'a list" where
  "pipeline this frames =
     (let p = featParams this;
          s = nat (numFrameSizeSamples p);
          n = length frames div s
      in per_frame n s (first_bins this)
           (windowing this
              (stage_if (preemCoef p \<noteq> 0) (preEmphasis this)
                 (stage_if (zeroMeanFrame p) (per_frame n s zero_mean)
                    (stage_if (ditherVal p \<noteq> 0) (dither this) frames)))))"

text \<open>A stage that works in place keeps the size of the buffer.\<close>

definition in_place :: "('a list \<Rightarrow> 'a list) \<Rightarrow> bool" where
  "in_place g = (\<forall>xs. length (g xs) = length xs)"

text \<open>
  The same pipeline with the pre-emphasis stage removed: \<^verbatim>\<open>powSpectrumImpl\<close> and
  \<^verbatim>\<open>apply\<close> without the lines of that stage.
\<close>

definition powSpectrumImpl_without_preEmphasis ::
  "('a::field) PowerSpectrum \<Rightarrow> 'a list \<Rightarrow> (failure + 'a list) \<times> 'a PowerSpectrum"
where
  "powSpectrumImpl_without_preEmphasis this frames0 =
     (let p = featParams this;
          nSamples = to_int (numFrameSizeSamples p);
          nFrames = to_int (int (length frames0 div to_size_t nSamples));
          K = to_int (int (filterFreqResponseLen p));
          frames1 = (if ditherVal p \<noteq> 0 then dither this frames0 else frames0);
          frames2 = (if zeroMeanFrame p
                     then fold (zeroMeanFrame_step nSamples) [0..<to_size_t nFrames] frames1
                     else frames1);
          frames4 = windowing this frames2
      in case new_vector (to_int (K * nFrames)) of
           Inl e \<Rightarrow> (Inl e, this)
         | Inr dft0 \<Rightarrow>
             (let st = fold (fft_step (fftSetup this) nSamples K frames4)
                            [0..<to_size_t nFrames] (dft0, inFftBuf this)
              in (Inr (fst st), this\<lparr>inFftBuf := snd st\<rparr>)))"

definition apply_without_preEmphasis ::
  "('a::field) PowerSpectrum \<Rightarrow> 'a list \<Rightarrow> (failure + 'a list) \<times> 'a PowerSpectrum"
where
  "apply_without_preEmphasis this input =
     (let frames = frameSignal input (featParams this)
      in if frames = [] then (Inr [], this)
         else powSpectrumImpl_without_preEmphasis this frames)"

section \<open>Examples\<close>

text \<open>
  The configuration of the spec's scenario (16 kHz, frames of 25 ms every 10 ms,
  transform length 512, 257 bins), a configuration with long frames and a short
  stride (16 kHz, 64 ms every 1 ms, transform length 1024, 513 bins), and a small
  one to run the model on.
\<close>

definition speech_params :: "real FeatureParams" where
  "speech_params =
     \<lparr>samplingFreq = 16000, frameSizeMs = 25, frameStrideMs = 10, windowType = RECTANGULAR,
      preemCoef = 0, ditherVal = 0, zeroMeanFrame = False,
      numFrameSizeSamples = 400, numFrameStrideSamples = 160,
      nFft = 512, filterFreqResponseLen = 257\<rparr>"

definition dense_params :: "real FeatureParams" where
  "dense_params =
     \<lparr>samplingFreq = 16000, frameSizeMs = 64, frameStrideMs = 1, windowType = HAMMING,
      preemCoef = 0, ditherVal = 0, zeroMeanFrame = False,
      numFrameSizeSamples = 1024, numFrameStrideSamples = 16,
      nFft = 1024, filterFreqResponseLen = 513\<rparr>"

definition small_params :: "real FeatureParams" where
  "small_params =
     \<lparr>samplingFreq = 1000, frameSizeMs = 2, frameStrideMs = 1, windowType = RECTANGULAR,
      preemCoef = 1 / 2, ditherVal = 1, zeroMeanFrame = True,
      numFrameSizeSamples = 2, numFrameStrideSamples = 1,
      nFft = 2, filterFreqResponseLen = 2\<rparr>"


text \<open>
  A choice for the absent classes, to run the model on examples; the theorems hold
  for every choice. The dither adds its amplitude to each sample (a noise of
  constant 1); the pre-emphasis is the formula of section 4.5 on the flat buffer;
  the window multiplies by 1 (rectangular) or by 1/2; the transform gives, for bin
  \<open>k\<close>, the square of the sum of the first \<open>k + 1\<close> samples of its buffer. The
  constructions of \<^verbatim>\<open>Dither\<close> and \<^verbatim>\<open>PreEmphasis\<close> throw nothing; that of
  \<^verbatim>\<open>Windowing\<close> creates the coefficient vector.
\<close>

definition demo_classes :: "real Classes" where
  "demo_classes =
     \<lparr>Dither = (\<lambda>amp xs. map (\<lambda>x. x + amp) xs),
      PreEmphasis = (\<lambda>coef N xs. map (\<lambda>(h, x). x - coef * h) (zip (0 # xs) xs)),
      Windowing = (\<lambda>N w xs. map (\<lambda>x. x * (if w = RECTANGULAR then 1 else 1 / 2)) xs),
      Transform = (\<lambda>n buf k. (foldl (+) 0 (take (Suc k) buf))\<^sup>2),
      library = ACCELERATE,
      Dither_throws = (\<lambda>amp. None),
      PreEmphasis_throws = (\<lambda>coef N. None),
      Windowing_throws = Windowing_coefficients_throw\<rparr>"

definition demo_object :: "real PowerSpectrum" where
  "demo_object = PowerSpectrum_members demo_classes small_params"

definition dense_object :: "real PowerSpectrum" where
  "dense_object = PowerSpectrum_members demo_classes dense_params"

definition plain_object :: "real PowerSpectrum" where
  "plain_object = PowerSpectrum_members demo_classes (small_params\<lparr>preemCoef := 0\<rparr>)"

definition speech_object :: "real PowerSpectrum" where
  "speech_object = PowerSpectrum_members demo_classes speech_params"

text \<open>
  A class derived from \<^verbatim>\<open>PowerSpectrum\<close> that overrides the two virtual methods so
  that they disagree: its \<^verbatim>\<open>apply\<close> returns one value for every input, its
  \<^verbatim>\<open>outputSize\<close> predicts two. The object has no state of its own.
\<close>

definition Derived_apply :: "unit \<Rightarrow> real list \<Rightarrow> (failure + real list) \<times> unit" where
  "Derived_apply this input = (Inr [0], this)"

definition Derived_outputSize :: "unit \<Rightarrow> int \<Rightarrow> int" where
  "Derived_outputSize this inputSz = 2"

section \<open>Conversions and copies\<close>

lemma to_int_id: "- 2147483648 \<le> x \<Longrightarrow> x \<le> INT_MAX \<Longrightarrow> to_int x = x"
  by (simp add: to_int_def INT_MAX_def)

lemma to_int_le: "to_int x \<le> INT_MAX"
  unfolding to_int_def INT_MAX_def
  using pos_mod_bound [of 4294967296 "x + 2147483648"] by linarith

lemma to_int_le_self: "0 \<le> x \<Longrightarrow> to_int x \<le> x"
proof (cases "x \<le> INT_MAX")
  case True
  assume "0 \<le> x"
  with True show ?thesis by (simp add: to_int_id)
next
  case False
  then show ?thesis using to_int_le [of x] by linarith
qed

lemma to_size_t_id: "0 \<le> x \<Longrightarrow> x \<le> INT_MAX \<Longrightarrow> to_size_t x = nat x"
  by (simp add: to_size_t_def INT_MAX_def)

lemma length_copy_to [simp]: "length (copy_to dst off src) = length dst"
  by (simp add: copy_to_def)

section \<open>Frames\<close>

lemma valid_params_iff:
  "valid_params p \<longleftrightarrow> 0 < samplingFreq p \<and> 0 < frameSizeMs p \<and> 0 < frameStrideMs p \<and>
     0 < numFrameSizeSamples p \<and> 0 < numFrameStrideSamples p"
  by (simp add: valid_params_def validatePowSpecParams_def)

lemma numFrames_short:
  "0 < numFrameStrideSamples p \<Longrightarrow> n < numFrameSizeSamples p \<Longrightarrow> numFrames p n = 0"
proof -
  assume s: "0 < numFrameStrideSamples p" and n: "n < numFrameSizeSamples p"
  from n have "n - numFrameSizeSamples p < 0" by simp
  with s have "(n - numFrameSizeSamples p) div numFrameStrideSamples p < 0"
    by (simp add: div_neg_pos_less0)
  then show ?thesis by (simp add: numFrames_def)
qed

lemma numFrames_long:
  "0 < numFrameStrideSamples p \<Longrightarrow> numFrameSizeSamples p \<le> n \<Longrightarrow>
   numFrames p n = (n - numFrameSizeSamples p) div numFrameStrideSamples p + 1"
  by (simp add: numFrames_def pos_imp_zdiv_nonneg_iff)

lemma numFrames_nonneg: "0 \<le> numFrames p n"
  by (simp add: numFrames_def)

lemma frame_in_range:
  assumes "0 < numFrameStrideSamples p" and "0 < numFrameSizeSamples p"
    and "f < nat (numFrames p (int n))"
  shows "f * nat (numFrameStrideSamples p) + nat (numFrameSizeSamples p) \<le> n"
proof -
  let ?w = "numFrameSizeSamples p" and ?s = "numFrameStrideSamples p"
  have pos: "0 < numFrames p (int n)" using assms(3) by simp
  have long: "?w \<le> int n"
  proof (rule ccontr)
    assume "\<not> ?w \<le> int n"
    then have "numFrames p (int n) = 0" using assms(1) by (simp add: numFrames_short)
    with pos show False by simp
  qed
  then have nf: "numFrames p (int n) = (int n - ?w) div ?s + 1"
    using assms(1) by (simp add: numFrames_long)
  from assms(3) nf have "int f \<le> (int n - ?w) div ?s" by linarith
  then have "int f * ?s \<le> (int n - ?w) div ?s * ?s"
    using assms(1) by (simp add: mult_right_mono)
  also have "\<dots> \<le> int n - ?w"
    using div_mult_mod_eq [of "int n - ?w" ?s] pos_mod_sign [OF assms(1), of "int n - ?w"]
    by linarith
  finally have "int f * ?s + ?w \<le> int n" by simp
  moreover have "int (f * nat ?s + nat ?w) = int f * ?s + ?w"
    using assms(1,2) by simp
  ultimately show ?thesis by linarith
qed

lemma length_concat_const:
  "(\<And>x. x \<in> set xs \<Longrightarrow> length (g x) = c) \<Longrightarrow> length (concat (map g xs)) = length xs * c"
  by (induction xs) auto

lemma length_frameSignal:
  assumes "0 < numFrameStrideSamples p" and "0 < numFrameSizeSamples p"
  shows "length (frameSignal input p) =
         nat (numFrames p (int (length input))) * nat (numFrameSizeSamples p)"
proof -
  let ?g = "\<lambda>f. take (nat (numFrameSizeSamples p))
                    (drop (f * nat (numFrameStrideSamples p)) input)"
  have "length (?g f) = nat (numFrameSizeSamples p)"
    if "f \<in> set [0..<nat (numFrames p (int (length input)))]" for f
    using frame_in_range [OF assms, of f "length input"] that by simp
  then have "length (concat (map ?g [0..<nat (numFrames p (int (length input)))])) =
             length [0..<nat (numFrames p (int (length input)))] * nat (numFrameSizeSamples p)"
    by (rule length_concat_const)
  then show ?thesis by (simp add: frameSignal_def)
qed

lemma length_fold_fft_step:
  "length (fst (fold (fft_step t s K frames) fs st)) = length (fst st)"
  by (induction fs arbitrary: st) (simp_all add: fft_step_def Let_def)

section \<open>Inputs shorter than a frame\<close>

text \<open>
  Claim C4. For parameters that pass the checks and an input shorter than one frame,
  \<open>numFrames\<close> is 0 and \<^verbatim>\<open>apply\<close> returns the empty vector, with no exception, and
  leaves the object as it was.
\<close>

theorem short_input_yields_no_frames:
  assumes "valid_params (featParams this)"
    and "int (length input) < numFrameSizeSamples (featParams this)"
  shows "numFrames (featParams this) (int (length input)) = 0 \<and>
         PowerSpectrum_apply this input = (Inr [], this)"
proof -
  from assms(1) have "0 < numFrameStrideSamples (featParams this)"
    by (simp add: valid_params_iff)
  then have nf: "numFrames (featParams this) (int (length input)) = 0"
    using assms(2) by (rule numFrames_short)
  then have "frameSignal input (featParams this) = []"
    by (simp add: frameSignal_def)
  with nf show ?thesis by (simp add: PowerSpectrum_apply_def)
qed

section \<open>The argument checks of batchApply\<close>

lemma apply_not_invalid_argument:
  "\<not> is_invalid_argument (fst (PowerSpectrum_apply this u))"
  by (simp add: PowerSpectrum_apply_def powSpectrumImpl_def new_vector_def Let_def)

lemma thrown_in_parallel_region_cases:
  "thrown_in_parallel_region e = terminate \<or> thrown_in_parallel_region e = undefined_behaviour"
  by (cases e) (simp_all add: thrown_in_parallel_region_def)

lemma utterance_cases:
  "utterance input N b = Inl undefined_behaviour \<or> (\<exists>u. utterance input N b = Inr u)"
  by (simp add: utterance_def Let_def)

lemma loop_not_invalid_argument:
  "\<not> is_invalid_argument (fst (batchApply_loop ap input N osz bs feat s))"
proof (induction bs arbitrary: feat s)
  case Nil
  show ?case by simp
next
  case (Cons b bs)
  from utterance_cases [of input N b] show ?case
  proof
    assume "utterance input N b = Inl undefined_behaviour"
    then show ?thesis by simp
  next
    assume "\<exists>u. utterance input N b = Inr u"
    then obtain u where u: "utterance input N b = Inr u" ..
    obtain r s' where r: "ap s u = (r, s')" by (cases "ap s u")
    show ?thesis
    proof (cases r)
      case (Inl e)
      with u r thrown_in_parallel_region_cases [of e] show ?thesis by auto
    next
      case (Inr curFeat)
      with u r Cons.IH show ?thesis by (simp add: thrown_in_parallel_region_def)
    qed
  qed
qed

text \<open>
  Claim C3. \<^verbatim>\<open>batchApply\<close> throws \<^verbatim>\<open>std::invalid_argument\<close> exactly when the batch
  size is not positive or does not divide the length of the input; it then returns
  no vector and leaves the object as it was.
\<close>

theorem batchApply_invalid_argument:
  "(is_invalid_argument (fst (batchApply PowerSpectrum_apply outputSize this input batchSz))
      \<longleftrightarrow> batchSz \<le> 0 \<or> length input mod nat batchSz \<noteq> 0) \<and>
   (is_invalid_argument (fst (batchApply PowerSpectrum_apply outputSize this input batchSz))
      \<longrightarrow> (\<forall>out. fst (batchApply PowerSpectrum_apply outputSize this input batchSz) \<noteq> Inr out) \<and>
          snd (batchApply PowerSpectrum_apply outputSize this input batchSz) = this)"
proof -
  have loop: "\<not> is_invalid_argument (fst (batchApply_loop PowerSpectrum_apply input N osz bs feat s))"
    for N osz bs and feat :: "'a list" and s :: "'a PowerSpectrum"
    by (rule loop_not_invalid_argument)
  show ?thesis
    by (auto simp add: batchApply_def new_vector_def Let_def loop)
qed

lemma valid_small_params: "valid_params (featParams demo_object)"
  by (simp add: valid_params_iff demo_object_def PowerSpectrum_members_def small_params_def)

text \<open>An input of one sample, for frames of two.\<close>

theorem short_input_yields_no_frames_witness:
  "valid_params (featParams demo_object) \<and>
   int (length [1::real]) < numFrameSizeSamples (featParams demo_object) \<and>
   numFrames (featParams demo_object) (int (length [1::real])) = 0 \<and>
   PowerSpectrum_apply demo_object [1] = (Inr [], demo_object)"
proof -
  have v: "valid_params (featParams demo_object)" by (rule valid_small_params)
  have l: "int (length [1::real]) < numFrameSizeSamples (featParams demo_object)"
    by (simp add: demo_object_def PowerSpectrum_members_def small_params_def)
  from short_input_yields_no_frames [OF v l] v l show ?thesis by simp
qed

text \<open>
  The batch sizes 0 and -1, the length 10 with batch size 3, and a call that passes
  the checks.
\<close>

theorem batchApply_invalid_argument_witness:
  "is_invalid_argument (fst (batchApply PowerSpectrum_apply outputSize demo_object [1, 2, 3, 4] 0)) \<and>
   is_invalid_argument (fst (batchApply PowerSpectrum_apply outputSize demo_object [1, 2, 3, 4] (- 1))) \<and>
   is_invalid_argument (fst (batchApply PowerSpectrum_apply outputSize demo_object (replicate 10 0) 3)) \<and>
   snd (batchApply PowerSpectrum_apply outputSize demo_object (replicate 10 0) 3) = demo_object \<and>
   \<not> is_invalid_argument (fst (batchApply PowerSpectrum_apply outputSize demo_object [1, 2, 3, 4] 2))"
  using batchApply_invalid_argument [of demo_object "[1, 2, 3, 4]" 0]
    batchApply_invalid_argument [of demo_object "[1, 2, 3, 4]" "- 1"]
    batchApply_invalid_argument [of demo_object "replicate 10 0" 3]
    batchApply_invalid_argument [of demo_object "[1, 2, 3, 4]" 2]
  by simp

section \<open>The size of the output\<close>

lemma to_int_nonneg: "0 \<le> x \<Longrightarrow> x \<le> INT_MAX \<Longrightarrow> to_int x = x"
  by (simp add: to_int_id)

lemma powSpectrumImpl_length:
  assumes s: "0 < numFrameSizeSamples (featParams this)"
      "numFrameSizeSamples (featParams this) \<le> INT_MAX"
    and len: "length frames = n * nat (numFrameSizeSamples (featParams this))"
    and n: "int n \<le> INT_MAX"
    and Kn: "int (filterFreqResponseLen (featParams this)) * int n \<le> INT_MAX"
  shows "\<exists>out. fst (powSpectrumImpl this frames) = Inr out \<and>
               length out = filterFreqResponseLen (featParams this) * n"
proof -
  let ?p = "featParams this"
  let ?K = "filterFreqResponseLen ?p"
  have ns: "to_int (numFrameSizeSamples ?p) = numFrameSizeSamples ?p"
    using s by (simp add: to_int_id)
  have sz: "to_size_t (numFrameSizeSamples ?p) = nat (numFrameSizeSamples ?p)"
    using s by (simp add: to_size_t_id)
  have nf: "to_int (int (length frames div nat (numFrameSizeSamples ?p))) = int n"
    using s n len by (simp add: to_int_id)
  have prod: "to_int (to_int (int ?K) * int n) = int ?K * int n"
  proof (cases "n = 0")
    case True
    then show ?thesis by (simp add: to_int_id INT_MAX_def)
  next
    case False
    then have "int ?K * 1 \<le> int ?K * int n" by (intro mult_left_mono) simp_all
    with Kn have "int ?K \<le> INT_MAX" by simp
    then have "to_int (int ?K) = int ?K" by (simp add: to_int_nonneg)
    moreover have "0 \<le> int ?K * int n" by simp
    ultimately show ?thesis using Kn by (simp only: to_int_nonneg)
  qed
  have "new_vector (to_int (to_int (int ?K) * int n)) = (Inr (replicate (?K * n) 0) :: failure + 'a list)"
    unfolding prod by (simp add: new_vector_def flip: of_nat_mult)
  then show ?thesis
    by (simp add: powSpectrumImpl_def Let_def ns sz nf length_fold_fft_step)
qed

lemma numFrames_le_input:
  assumes "0 < numFrameSizeSamples p" "0 < numFrameStrideSamples p" "0 \<le> n"
  shows "numFrames p n \<le> n"
proof (cases "numFrameSizeSamples p \<le> n")
  case True
  have "(n - numFrameSizeSamples p) div numFrameStrideSamples p \<le> n - numFrameSizeSamples p"
    using zdiv_mono2 [of "n - numFrameSizeSamples p" 1 "numFrameStrideSamples p"] True assms(2)
    by simp
  with True assms show ?thesis by (simp add: numFrames_long)
next
  case False
  with assms show ?thesis by (simp add: numFrames_short)
qed

lemma outputSize_in_range:
  assumes "int (powSpecFeatSz (featParams this)) * numFrames (featParams this) n \<le> INT_MAX"
  shows "outputSize this n = int (powSpecFeatSz (featParams this)) * numFrames (featParams this) n"
proof -
  have "0 \<le> int (powSpecFeatSz (featParams this)) * numFrames (featParams this) n"
    by (simp add: numFrames_nonneg)
  then show ?thesis using assms by (simp add: outputSize_def to_int_nonneg)
qed

lemma apply_length_in_range:
  assumes v: "valid_params (featParams this)"
    and L: "int (length input) \<le> INT_MAX"
    and P: "int (powSpecFeatSz (featParams this)) *
            numFrames (featParams this) (int (length input)) \<le> INT_MAX"
  shows "\<exists>out. fst (PowerSpectrum_apply this input) = Inr out \<and>
               int (length out) =
               int (powSpecFeatSz (featParams this)) * numFrames (featParams this) (int (length input))"
proof -
  let ?p = "featParams this"
  let ?nf = "numFrames ?p (int (length input))"
  let ?K = "filterFreqResponseLen ?p"
  from v have w: "0 < numFrameSizeSamples ?p" and st: "0 < numFrameStrideSamples ?p"
    by (simp_all add: valid_params_iff)
  have nn: "0 \<le> ?nf" by (rule numFrames_nonneg)
  have fl: "length (frameSignal input ?p) = nat ?nf * nat (numFrameSizeSamples ?p)"
    using st w by (rule length_frameSignal)
  have "\<exists>out. fst (PowerSpectrum_apply this input) = Inr out \<and> int (length out) = int ?K * ?nf"
  proof (cases "frameSignal input ?p = []")
    case True
    with fl w have "?nf = 0" using nn by simp
    with True show ?thesis by (simp add: PowerSpectrum_apply_def)
  next
    case False
    with fl have pos: "0 < ?nf" by (cases "?nf \<le> 0") auto
    have "numFrameSizeSamples ?p \<le> int (length input)"
    proof (rule ccontr)
      assume "\<not> numFrameSizeSamples ?p \<le> int (length input)"
      with st have "?nf = 0" by (simp add: numFrames_short)
      with pos show False by simp
    qed
    with L have w2: "numFrameSizeSamples ?p \<le> INT_MAX" by simp
    have "?nf \<le> int (length input)" using w st by (intro numFrames_le_input) simp_all
    with L nn have n2: "int (nat ?nf) \<le> INT_MAX" by simp
    have Kn: "int ?K * int (nat ?nf) \<le> INT_MAX" using P nn by (simp add: powSpecFeatSz_def)
    from powSpectrumImpl_length [OF w w2 fl n2 Kn] False nn show ?thesis
      by (auto simp add: PowerSpectrum_apply_def)
  qed
  then show ?thesis by (simp add: powSpecFeatSz_def)
qed

text \<open>
  Claim C1, amended. For parameters that pass the checks and an input whose length
  \<open>N\<close> and whose product \<open>K * numFrames N\<close> both fit in an \<^verbatim>\<open>int\<close>, \<^verbatim>\<open>outputSize\<close>
  returns \<open>K * numFrames N\<close>, and \<^verbatim>\<open>apply\<close> returns a vector of exactly that many
  elements.
\<close>

theorem outputSize_and_apply_length:
  assumes "valid_params (featParams this)"
    and "int (length input) \<le> INT_MAX"
    and "int (powSpecFeatSz (featParams this)) *
         numFrames (featParams this) (int (length input)) \<le> INT_MAX"
  shows "outputSize this (int (length input)) =
           int (powSpecFeatSz (featParams this)) * numFrames (featParams this) (int (length input)) \<and>
         (\<exists>out. fst (PowerSpectrum_apply this input) = Inr out \<and>
                int (length out) = outputSize this (int (length input)))"
proof -
  have size: "outputSize this (int (length input)) =
      int (powSpecFeatSz (featParams this)) * numFrames (featParams this) (int (length input))"
    using assms(3) by (rule outputSize_in_range)
  from assms obtain out where "fst (PowerSpectrum_apply this input) = Inr out"
    and "int (length out) =
      int (powSpecFeatSz (featParams this)) * numFrames (featParams this) (int (length input))"
    using apply_length_in_range by blast
  with size show ?thesis by simp
qed

text \<open>
  Claim C1 as stated fails where the product does not fit in the \<^verbatim>\<open>int\<close> that
  \<^verbatim>\<open>outputSize\<close> returns: for the spec's own configuration at a length of
  2000000000 samples, and for frames of 64 ms every 1 ms at 70000000 samples, the
  product is above \<open>2^31 - 1\<close> and \<^verbatim>\<open>outputSize\<close> returns a negative number.
\<close>

theorem outputSize_wraps_counterexample:
  "valid_params speech_params \<and>
   int (powSpecFeatSz speech_params) * numFrames speech_params 2000000000 = 3212499486 \<and>
   outputSize (PowerSpectrum_members demo_classes speech_params) 2000000000 = - 1082467810 \<and>
   valid_params dense_params \<and>
   int (powSpecFeatSz dense_params) * numFrames dense_params 70000000 = 2244342681 \<and>
   outputSize (PowerSpectrum_members demo_classes dense_params) 70000000 = - 2050624615"
  by (simp add: valid_params_iff speech_params_def dense_params_def powSpecFeatSz_def
      numFrames_def outputSize_def PowerSpectrum_members_def to_int_def)

text \<open>Three samples, frames of two with stride one, two bins.\<close>

theorem outputSize_and_apply_length_witness:
  "valid_params (featParams demo_object) \<and>
   int (length [1, 2, 3::real]) \<le> INT_MAX \<and>
   int (powSpecFeatSz (featParams demo_object)) *
     numFrames (featParams demo_object) (int (length [1, 2, 3::real])) \<le> INT_MAX \<and>
   outputSize demo_object (int (length [1, 2, 3::real])) =
     int (powSpecFeatSz (featParams demo_object)) *
     numFrames (featParams demo_object) (int (length [1, 2, 3::real])) \<and>
   (\<exists>out. fst (PowerSpectrum_apply demo_object [1, 2, 3]) = Inr out \<and>
          int (length out) = outputSize demo_object (int (length [1, 2, 3::real])))"
proof -
  have v: "valid_params (featParams demo_object)" by (rule valid_small_params)
  have L: "int (length [1, 2, 3::real]) \<le> INT_MAX" by (simp add: INT_MAX_def)
  have nf: "numFrames (featParams demo_object) (int (length [1, 2, 3::real])) = 2"
    by (simp add: demo_object_def PowerSpectrum_members_def small_params_def numFrames_def)
  have K: "powSpecFeatSz (featParams demo_object) = 2"
    by (simp add: demo_object_def PowerSpectrum_members_def small_params_def powSpecFeatSz_def)
  have P: "int (powSpecFeatSz (featParams demo_object)) *
     numFrames (featParams demo_object) (int (length [1, 2, 3::real])) \<le> INT_MAX"
    unfolding nf K by (simp add: INT_MAX_def)
  from outputSize_and_apply_length [OF v L P] v L P show ?thesis
    by blast
qed

section \<open>The batch loop\<close>

lemma featParams_apply [simp]: "featParams (snd (PowerSpectrum_apply s u)) = featParams s"
  by (simp add: PowerSpectrum_apply_def powSpectrumImpl_def Let_def split: sum.split)

lemma apply_each_all:
  assumes "P s"
    and "\<And>s u. P s \<Longrightarrow> u \<in> set us \<Longrightarrow> Q (fst (ap s u)) \<and> P (snd (ap s u))"
  shows "\<forall>r \<in> set (apply_each ap s us). Q r"
  using assms
proof (induction us arbitrary: s)
  case Nil
  show ?case by simp
next
  case (Cons u us)
  from Cons.prems(2) [OF Cons.prems(1), of u]
  have q: "Q (fst (ap s u))" and p: "P (snd (ap s u))" by simp_all
  have "\<forall>r \<in> set (apply_each ap (snd (ap s u)) us). Q r"
    by (rule Cons.IH [OF p]) (use Cons.prems(2) in auto)
  with q show ?case by simp
qed

lemma length_apply_each [simp]: "length (apply_each ap s us) = length us"
  by (induction us arbitrary: s) simp_all

lemma concat_results_right_size:
  "\<forall>r \<in> set rs. right_size m r \<Longrightarrow>
   \<exists>outs. concat_results rs = Inr outs \<and> length outs = length rs * m"
proof (induction rs)
  case Nil
  show ?case by simp
next
  case (Cons r rs)
  then obtain out where r: "r = Inr out" "length out = m"
    by (cases r) (simp_all add: right_size_def)
  from Cons obtain outs where "concat_results rs = Inr outs" "length outs = length rs * m"
    by auto
  with r show ?case by simp
qed

lemma take_copy_to:
  "off + length src \<le> length dst \<Longrightarrow>
   take (off + length src) (copy_to dst off src) = take off dst @ src"
  by (simp add: copy_to_def)

text \<open>
  The loop places the results one after the other when each utterance lies inside
  the input and gives a result of the expected size.
\<close>

lemma batchApply_loop_places:
  assumes "\<forall>b \<in> set [k..<n]. utterance input N b = Inr (u b)"
    and "\<forall>r \<in> set (apply_each ap s (map u [k..<n])). right_size (to_size_t osz) r"
    and "length feat = n * to_size_t osz"
  shows "\<exists>outs. concat_results (apply_each ap s (map u [k..<n])) = Inr outs \<and>
               fst (batchApply_loop ap input N osz [k..<n] feat s) =
                 Inr (take (k * to_size_t osz) feat @ outs)"
  using assms
proof (induction "n - k" arbitrary: k feat s)
  case 0
  then have nk: "n \<le> k" by simp
  then have e: "[k..<n] = []" by simp
  have "n * to_size_t osz \<le> k * to_size_t osz" using nk by (rule mult_le_mono1)
  then have "length feat \<le> k * to_size_t osz" using "0.prems"(3) by simp
  then show ?case unfolding e by simp
next
  case (Suc d)
  let ?m = "to_size_t osz"
  from Suc.hyps(2) have kn: "k < n" by simp
  then have upt: "[k..<n] = k # [Suc k..<n]" by (rule upt_conv_Cons)
  from Suc.prems(1) have uk: "utterance input N k = Inr (u k)" by (simp add: upt)
  obtain r s' where ap: "ap s (u k) = (r, s')"
    by (cases "ap s (u k)")
  from Suc.prems(2) have "right_size ?m r" by (simp add: upt ap)
  then obtain out where r: "r = Inr out" and lo: "length out = ?m"
    by (cases r) (simp_all add: right_size_def)
  let ?feat = "copy_to feat (k * ?m) out"
  have d: "d = n - Suc k" using Suc.hyps(2) by simp
  have inside: "\<forall>b \<in> set [Suc k..<n]. utterance input N b = Inr (u b)"
    using Suc.prems(1) by (simp add: upt)
  have rest: "\<forall>r \<in> set (apply_each ap s' (map u [Suc k..<n])). right_size ?m r"
    using Suc.prems(2) by (simp add: upt ap)
  have len: "length ?feat = n * ?m" using Suc.prems(3) by simp
  from Suc.hyps(1) [OF d inside rest len] obtain outs where
    outs: "concat_results (apply_each ap s' (map u [Suc k..<n])) = Inr outs"
    and loop: "fst (batchApply_loop ap input N osz [Suc k..<n] ?feat s') =
               Inr (take (Suc k * ?m) ?feat @ outs)"
    by blast
  have "Suc k * ?m \<le> n * ?m" using kn by (simp add: Suc_leI mult_le_mono1 del: mult_Suc)
  then have "k * ?m + length out \<le> length feat" using lo Suc.prems(3) by simp
  then have "take (k * ?m + length out) ?feat = take (k * ?m) feat @ out"
    by (rule take_copy_to)
  moreover have "k * ?m + length out = Suc k * ?m" using lo by simp
  ultimately have tk: "take (Suc k * ?m) ?feat = take (k * ?m) feat @ out"
    by metis
  have "fst (batchApply_loop ap input N osz [k..<n] feat s) =
        fst (batchApply_loop ap input N osz [Suc k..<n] ?feat s')"
    by (simp add: upt uk ap r lo)
  also have "\<dots> = Inr (take (Suc k * ?m) ?feat @ outs)" by (rule loop)
  also have "\<dots> = Inr (take (k * ?m) feat @ out @ outs)" by (simp only: tk append_assoc)
  finally have "fst (batchApply_loop ap input N osz [k..<n] feat s) =
                Inr (take (k * ?m) feat @ out @ outs)" .
  moreover have "concat_results (apply_each ap s (map u [k..<n])) =
                 Inr (out @ outs)"
    by (simp add: upt ap r outs)
  ultimately show ?case by blast
qed

text \<open>An utterance whose offset fits in an \<^verbatim>\<open>int\<close> and which ends inside the input.\<close>

lemma length_slice_of:
  assumes "b < B" and "length input = B * n"
  shows "length (slice_of input n b) = n"
proof -
  from assms(1) have "Suc b * n \<le> B * n" by (simp add: Suc_leI mult_le_mono1 del: mult_Suc)
  with assms(2) show ?thesis by (simp add: slice_of_def)
qed

lemma utterance_slice:
  assumes "int (b * n) \<le> INT_MAX" and "b * n + n \<le> length input"
  shows "utterance input (int n) b = Inr (slice_of input n b)"
proof -
  from assms(1) have "to_int (int b * int n) = int (b * n)" by (simp add: to_int_nonneg)
  moreover have "int (b * n) + int n \<le> int (length input)"
    using assms(2) by (simp only: flip: of_nat_add of_nat_le_iff)
  ultimately show ?thesis
    by (simp add: utterance_def Let_def slice_of_def del: of_nat_mult)
qed

lemma utterance_in_range:
  assumes "b < B" and "length input = B * n" and "int (length input) \<le> INT_MAX"
  shows "utterance input (int n) b = Inr (slice_of input n b)"
proof (rule utterance_slice)
  from assms(1) have le: "b * n + n \<le> B * n"
    using mult_le_mono1 [of "Suc b" B n] by simp
  with assms(2) show "b * n + n \<le> length input" by simp
  from le have "b * n \<le> B * n" by linarith
  then have "int (b * n) \<le> int (B * n)" by (simp only: of_nat_le_iff)
  with assms(2,3) show "int (b * n) \<le> INT_MAX" by (simp only:)
qed

section \<open>Batches of utterances shorter than a frame\<close>

lemma apply_short:
  assumes "valid_params (featParams this)"
    and "int (length input) < numFrameSizeSamples (featParams this)"
  shows "PowerSpectrum_apply this input = (Inr [], this)"
proof -
  from assms(1) have "0 < numFrameStrideSamples (featParams this)"
    by (simp add: valid_params_iff)
  then have "numFrames (featParams this) (int (length input)) = 0"
    using assms(2) by (rule numFrames_short)
  then have "frameSignal input (featParams this) = []"
    by (simp add: frameSignal_def)
  then show ?thesis by (simp add: PowerSpectrum_apply_def)
qed

lemma numFrames_zero_short:
  assumes "0 < numFrameStrideSamples p" and "numFrames p n = 0"
  shows "n < numFrameSizeSamples p"
proof (rule ccontr)
  assume "\<not> n < numFrameSizeSamples p"
  then have "0 \<le> (n - numFrameSizeSamples p) div numFrameStrideSamples p"
    using assms(1) by (simp add: pos_imp_zdiv_nonneg_iff)
  then have "0 < numFrames p n" by (simp add: numFrames_def)
  with assms(2) show False by simp
qed

lemma length_slice_of_le: "length (slice_of input n b) \<le> n"
  by (simp add: slice_of_def)

text \<open>
  Claim C10, amended. For parameters that pass the checks, a positive batch size that
  divides the length of the input, an input whose length fits in an \<^verbatim>\<open>int\<close>, and
  utterances of a length \<open>N\<close> with \<open>numFrames N = 0\<close>, \<^verbatim>\<open>batchApply\<close> returns the empty
  vector: every utterance lies inside the input, every \<^verbatim>\<open>apply\<close> returns an empty
  vector, the predicted size is 0, and the size check passes.
\<close>

theorem batchApply_no_frames:
  assumes v: "valid_params (featParams this)"
    and B: "0 < batchSz"
    and dv: "length input mod nat batchSz = 0"
    and L: "int (length input) \<le> INT_MAX"
    and nf: "numFrames (featParams this) (int (length input div nat batchSz)) = 0"
  shows "fst (batchApply PowerSpectrum_apply outputSize this input batchSz) = Inr []"
proof -
  let ?p = "featParams this"
  let ?B = "nat batchSz"
  let ?n = "length input div ?B"
  from v have st: "0 < numFrameStrideSamples ?p" and w: "0 < numFrameSizeSamples ?p"
    by (simp_all add: valid_params_iff)
  have Ln: "length input = ?B * ?n"
    using dv by (simp add: mult.commute flip: dvd_div_eq_mult mod_eq_0_iff_dvd)
  have "int ?n \<le> int (length input)" by (simp add: div_le_dividend)
  with L have "int ?n \<le> INT_MAX" by linarith
  then have N: "to_int (int ?n) = int ?n" by (simp add: to_int_nonneg)
  have short: "int ?n < numFrameSizeSamples ?p" using st nf by (rule numFrames_zero_short)
  have os: "outputSize this (int ?n) = 0" using nf by (simp add: outputSize_def to_int_def)
  have z: "to_size_t 0 = 0" by (simp add: to_size_t_def)
  have vec: "new_vector (to_int 0) = (Inr [] :: failure + 'a list)"
    by (simp add: new_vector_def to_int_def)
  have inside: "\<forall>b \<in> set [0..<?B]. utterance input (int ?n) b = Inr (slice_of input ?n b)"
    using Ln L by (simp add: utterance_in_range)
  have "\<forall>r \<in> set (apply_each PowerSpectrum_apply this
                       (map (slice_of input ?n) [0..<?B])). right_size 0 r"
  proof (rule apply_each_all [where P = "\<lambda>s. featParams s = ?p"])
    show "featParams this = ?p" by simp
  next
    fix s :: "'a PowerSpectrum" and u
    assume s: "featParams s = ?p" and "u \<in> set (map (slice_of input ?n) [0..<?B])"
    then obtain b where "u = slice_of input ?n b" by auto
    then have "int (length u) \<le> int ?n" by (simp add: length_slice_of_le)
    with short have "int (length u) < numFrameSizeSamples (featParams s)" using s by simp
    with v s have "PowerSpectrum_apply s u = (Inr [], s)" by (intro apply_short) simp_all
    with s show "right_size 0 (fst (PowerSpectrum_apply s u)) \<and>
                 featParams (snd (PowerSpectrum_apply s u)) = ?p"
      by (simp add: right_size_def)
  qed
  then have rs: "\<forall>r \<in> set (apply_each PowerSpectrum_apply this
                       (map (slice_of input ?n) [0..<?B])). right_size (to_size_t 0) r"
    by (simp only: z)
  have "length ([] :: 'a list) = ?B * to_size_t 0" by (simp add: z)
  from batchApply_loop_places [OF inside rs this] obtain outs where
    c: "concat_results (apply_each PowerSpectrum_apply this
          (map (slice_of input ?n) [0..<?B])) = Inr outs"
    and l: "fst (batchApply_loop PowerSpectrum_apply input (int ?n) 0 [0..<?B] [] this) =
            Inr (take (0 * to_size_t 0) [] @ outs)"
    by blast
  from concat_results_right_size [OF rs] c have "outs = []" by (simp add: z)
  with l have "fst (batchApply_loop PowerSpectrum_apply input (int ?n) 0 [0..<?B] [] this) = Inr []"
    by simp
  then show ?thesis using B dv by (simp add: batchApply_def Let_def N os vec)
qed

text \<open>Two utterances of one sample, for frames of two.\<close>

theorem batchApply_no_frames_witness:
  "valid_params (featParams demo_object) \<and> (0::int) < 2 \<and>
   length [1, 2::real] mod nat 2 = 0 \<and>
   int (length [1, 2::real]) \<le> INT_MAX \<and>
   numFrames (featParams demo_object) (int (length [1, 2::real] div nat 2)) = 0 \<and>
   fst (batchApply PowerSpectrum_apply outputSize demo_object [1, 2] 2) = Inr []"
proof -
  have v: "valid_params (featParams demo_object)" by (rule valid_small_params)
  have B: "(0::int) < 2" by simp
  have dv: "length [1, 2::real] mod nat 2 = 0" by simp
  have L: "int (length [1, 2::real]) \<le> INT_MAX" by (simp add: INT_MAX_def)
  have nf: "numFrames (featParams demo_object) (int (length [1, 2::real] div nat 2)) = 0"
    by (simp add: demo_object_def PowerSpectrum_members_def small_params_def numFrames_def)
  from batchApply_no_frames [OF v B dv L nf] v B dv L nf show ?thesis by blast
qed

text \<open>
  A run of utterances that lie inside the input and for which \<^verbatim>\<open>apply\<close> returns the
  empty vector, the predicted size being 0, leaves the output and the object as
  they were.
\<close>

lemma copy_to_nothing: "copy_to dst off [] = dst"
  by (simp add: copy_to_def)

lemma batchApply_loop_empty_prefix:
  assumes "\<forall>b \<in> set bs. \<exists>u. utterance input N b = Inr u \<and> ap s u = (Inr [], s)"
    and "to_size_t osz = 0"
  shows "batchApply_loop ap input N osz (bs @ rest) feat s =
         batchApply_loop ap input N osz rest feat s"
  using assms(1)
proof (induction bs)
  case Nil
  show ?case by simp
next
  case (Cons b bs)
  then obtain u where "utterance input N b = Inr u" and "ap s u = (Inr [], s)" by auto
  with Cons assms(2) show ?case by (simp add: copy_to_nothing)
qed

text \<open>
  Claim C10 as stated fails for an input longer than \<open>2^31 - 1\<close> samples: with the
  spec's configuration, 2147484000 samples in 7158280 utterances of 300 satisfy
  every condition of the claim (300 samples are less than a frame of 400), but for
  the last utterance the \<^verbatim>\<open>int\<close> product \<open>7158279 * 300\<close> wraps to -2147483596 and
  \<^verbatim>\<open>inputBuf\<close> is built from a range that starts before the input.
\<close>

theorem batchApply_no_frames_counterexample:
  "valid_params (featParams speech_object) \<and> (0::int) < 7158280 \<and>
   length (replicate 2147484000 (0::real)) mod nat 7158280 = 0 \<and>
   numFrames (featParams speech_object)
     (int (length (replicate 2147484000 (0::real)) div nat 7158280)) = 0 \<and>
   to_int (7158279 * 300) = - 2147483596 \<and>
   fst (batchApply PowerSpectrum_apply outputSize speech_object (replicate 2147484000 0) 7158280) =
     Inl undefined_behaviour \<and>
   fst (batchApply PowerSpectrum_apply outputSize speech_object (replicate 2147484000 0) 7158280) \<noteq>
     Inr []"
proof -
  define input where "input = replicate 2147484000 (0::real)"
  have li: "length input = 2147484000" by (simp add: input_def)
  have fp: "featParams speech_object = speech_params"
    by (simp add: speech_object_def PowerSpectrum_members_def)
  have v: "valid_params (featParams speech_object)"
    by (simp add: fp valid_params_iff speech_params_def)
  have nf: "numFrames speech_params 300 = 0"
    by (simp add: numFrames_def speech_params_def)
  have os: "outputSize speech_object 300 = 0"
    by (simp add: outputSize_def fp nf to_int_def)
  have wrap: "to_int (7158279 * 300) = - 2147483596" by (simp add: to_int_def)
  have "\<exists>u. utterance input 300 b = Inr u \<and>
             PowerSpectrum_apply speech_object u = (Inr [], speech_object)"
    if "b < 7158279" for b
  proof -
    from that have "b * 300 \<le> 2147483400" by simp
    then have "int (b * 300) \<le> INT_MAX" and "b * 300 + 300 \<le> length input"
      by (simp_all add: INT_MAX_def li)
    then have "utterance input (int 300) b = Inr (slice_of input 300 b)"
      by (rule utterance_slice)
    moreover have "int (length (slice_of input 300 b)) <
                   numFrameSizeSamples (featParams speech_object)"
      using length_slice_of_le [of input 300 b] by (simp add: fp speech_params_def)
    with v have "PowerSpectrum_apply speech_object (slice_of input 300 b) =
                 (Inr [], speech_object)"
      by (rule apply_short)
    ultimately show ?thesis by simp
  qed
  then have prefix: "\<forall>b \<in> set [0..<7158279].
      \<exists>u. utterance input 300 b = Inr u \<and>
          PowerSpectrum_apply speech_object u = (Inr [], speech_object)"
    by (simp del: upt_rec_numeral)
  have z: "to_size_t 0 = 0" by (simp add: to_size_t_def)
  have last: "utterance input 300 7158279 = Inl undefined_behaviour"
    by (simp add: utterance_def Let_def to_int_def)
  have "fst (batchApply_loop PowerSpectrum_apply input 300 0 ([0..<7158279] @ [7158279]) []
               speech_object) =
        fst (batchApply_loop PowerSpectrum_apply input 300 0 [7158279] [] speech_object)"
    using batchApply_loop_empty_prefix
      [where ap = PowerSpectrum_apply and s = speech_object and input = input and N = 300
        and osz = 0 and bs = "[0..<7158279]" and rest = "[7158279]" and feat = "[]",
        OF prefix z]
    by (simp only:)
  also have "\<dots> = Inl undefined_behaviour" by (simp add: last)
  finally have loop: "fst (batchApply_loop PowerSpectrum_apply input 300 0
                            ([0..<7158279] @ [7158279]) [] speech_object) =
                      Inl undefined_behaviour" .
  have upt: "[0..<nat 7158280] = [0..<7158279] @ [7158279]"
    using upt_Suc_append [of 0 7158279] by (simp del: upt_rec_numeral upt_Suc)
  have vec: "new_vector 0 = (Inr [] :: failure + real list)"
    by (simp add: new_vector_def)
  have "fst (batchApply PowerSpectrum_apply outputSize speech_object input 7158280) =
        Inl undefined_behaviour"
    unfolding batchApply_def Let_def upt
    by (simp add: li to_int_def os vec loop del: upt_rec_numeral)
  with v nf wrap show ?thesis
    by (simp add: input_def fp del: upt_rec_numeral)
qed

section \<open>The batch as a concatenation\<close>

lemma results_in_range:
  assumes v: "valid_params (featParams this)"
    and n: "int n \<le> INT_MAX"
    and P: "int (powSpecFeatSz (featParams this)) * numFrames (featParams this) (int n) \<le> INT_MAX"
    and us: "\<forall>u \<in> set us. length u = n"
  shows "\<forall>r \<in> set (apply_each PowerSpectrum_apply this us).
           right_size (nat (int (powSpecFeatSz (featParams this)) *
                            numFrames (featParams this) (int n))) r"
proof (rule apply_each_all [where P = "\<lambda>s. featParams s = featParams this"])
  show "featParams this = featParams this" by simp
next
  fix s :: "'a PowerSpectrum" and u
  assume s: "featParams s = featParams this" and "u \<in> set us"
  with us have lu: "length u = n" by simp
  have "\<exists>out. fst (PowerSpectrum_apply s u) = Inr out \<and>
               int (length out) =
               int (powSpecFeatSz (featParams s)) * numFrames (featParams s) (int (length u))"
    by (rule apply_length_in_range) (use v n P s lu in simp_all)
  then obtain out where "fst (PowerSpectrum_apply s u) = Inr out"
    and "int (length out) =
         int (powSpecFeatSz (featParams this)) * numFrames (featParams this) (int n)"
    using s lu by auto
  then have "right_size (nat (int (powSpecFeatSz (featParams this)) *
                              numFrames (featParams this) (int n)))
               (fst (PowerSpectrum_apply s u))"
    by (simp add: right_size_def flip: nat_int)
  with s show "right_size (nat (int (powSpecFeatSz (featParams this)) *
                              numFrames (featParams this) (int n)))
               (fst (PowerSpectrum_apply s u)) \<and>
             featParams (snd (PowerSpectrum_apply s u)) = featParams this"
    by simp
qed

lemma nth_concat_results:
  assumes "concat_results rs = Inr outs" and "\<forall>r \<in> set rs. right_size m r" and "b < length rs"
  shows "rs ! b = Inr (take m (drop (b * m) outs))"
  using assms
proof (induction rs arbitrary: outs b)
  case Nil
  then show ?case by simp
next
  case (Cons r rs)
  from Cons.prems(2) obtain out where r: "r = Inr out" "length out = m"
    by (cases r) (simp_all add: right_size_def)
  from Cons.prems(1) r obtain rest where rest: "concat_results rs = Inr rest" "outs = out @ rest"
    by (auto split: sum.splits)
  show ?case
  proof (cases b)
    case 0
    with r rest show ?thesis by simp
  next
    case (Suc b')
    with Cons.prems(3) have "b' < length rs" by simp
    from Cons.IH [OF rest(1) _ this] Cons.prems(2)
    have "rs ! b' = Inr (take m (drop (b' * m) rest))" by simp
    with Suc r rest show ?thesis by simp
  qed
qed

text \<open>
  Claim C2, amended. For parameters that pass the checks, a positive batch size that
  divides the length of the input, an input whose length fits in an \<^verbatim>\<open>int\<close> and a
  whole output whose size \<open>K * numFrames N * batchSz\<close> fits in an \<^verbatim>\<open>int\<close>,
  \<^verbatim>\<open>batchApply\<close> returns what calling \<^verbatim>\<open>apply\<close> on each slice in turn and
  concatenating the results gives; the result of slice \<open>b\<close> stands at offset
  \<open>b * outputSize N\<close>.
\<close>

theorem batchApply_concatenates:
  assumes v: "valid_params (featParams this)"
    and B: "0 < batchSz"
    and dv: "length input mod nat batchSz = 0"
    and L: "int (length input) \<le> INT_MAX"
    and P: "int (powSpecFeatSz (featParams this)) *
            numFrames (featParams this) (int (length input div nat batchSz)) * batchSz \<le> INT_MAX"
  shows "fst (batchApply PowerSpectrum_apply outputSize this input batchSz) =
           apply_each_slice this input (nat batchSz) \<and>
         (\<exists>out. fst (batchApply PowerSpectrum_apply outputSize this input batchSz) = Inr out \<and>
            int (length out) = batchSz * outputSize this (int (length input div nat batchSz)) \<and>
            (\<forall>b < nat batchSz.
               apply_each PowerSpectrum_apply this
                 (map (slice_of input (length input div nat batchSz)) [0..<nat batchSz]) ! b =
               Inr (take (nat (outputSize this (int (length input div nat batchSz))))
                     (drop (b * nat (outputSize this (int (length input div nat batchSz)))) out))))"
proof -
  let ?p = "featParams this"
  let ?B = "nat batchSz"
  let ?n = "length input div ?B"
  let ?q = "int (powSpecFeatSz ?p) * numFrames ?p (int ?n)"
  let ?us = "map (slice_of input ?n) [0..<?B]"
  let ?rs = "apply_each PowerSpectrum_apply this ?us"
  have Ln: "length input = ?B * ?n" using dv by (simp add: mult.commute flip: dvd_div_eq_mult mod_eq_0_iff_dvd) 
  have q0: "0 \<le> ?q" by (simp add: numFrames_nonneg)
  have "?q * 1 \<le> ?q * batchSz" using q0 B by (intro mult_left_mono) simp_all
  with P have q1: "?q \<le> INT_MAX" by simp
  have "int ?n \<le> int (length input)" by (simp add: div_le_dividend)
  with L have n1: "int ?n \<le> INT_MAX" by linarith
  then have N: "to_int (int ?n) = int ?n" by (simp add: to_int_nonneg)
  have os: "outputSize this (int ?n) = ?q"
    using q0 q1 by (simp add: outputSize_def to_int_nonneg)
  have m: "to_size_t ?q = nat ?q" using q0 q1 by (rule to_size_t_id)
  have "0 \<le> ?q * batchSz" using q0 B by simp
  then have "to_int (?q * batchSz) = ?q * batchSz" using P by (rule to_int_nonneg)
  then have vec: "new_vector (to_int (?q * batchSz)) =
                  (Inr (replicate (?B * nat ?q) 0) :: failure + 'a list)"
    using q0 B by (simp add: new_vector_def nat_mult_distrib mult.commute not_less)
  have inside: "\<forall>b \<in> set [0..<?B]. utterance input (int ?n) b = Inr (slice_of input ?n b)"
    using Ln L by (simp add: utterance_in_range)
  have "\<forall>u \<in> set ?us. length u = ?n" using Ln by (auto simp add: length_slice_of)
  with v n1 q1 have rs: "\<forall>r \<in> set ?rs. right_size (nat ?q) r" by (rule results_in_range)
  then have rs': "\<forall>r \<in> set ?rs. right_size (to_size_t ?q) r"
    by (simp only: m)
  have "length (replicate (?B * nat ?q) (0::'a)) = ?B * to_size_t ?q" by (simp add: m)
  from batchApply_loop_places [OF inside rs' this] obtain outs where
    c: "concat_results ?rs = Inr outs"
    and l: "fst (batchApply_loop PowerSpectrum_apply input (int ?n) ?q [0..<?B]
                  (replicate (?B * nat ?q) 0) this) = Inr outs"
    by auto
  have run: "fst (batchApply PowerSpectrum_apply outputSize this input batchSz) = Inr outs"
    using B dv by (simp add: batchApply_def Let_def N os vec l)
  from concat_results_right_size [OF rs] c have "length outs = ?B * nat ?q" by simp
  then have len: "int (length outs) = batchSz * ?q" using B q0 by simp
  have nth: "?rs ! b = Inr (take (nat ?q) (drop (b * nat ?q) outs))" if "b < ?B" for b
    using c rs that by (intro nth_concat_results) simp_all
  show ?thesis
    unfolding os using run c len nth by (simp add: apply_each_slice_def)
qed

text \<open>Six samples in two utterances of three.\<close>

theorem batchApply_concatenates_witness:
  "valid_params (featParams demo_object) \<and> (0::int) < 2 \<and>
   length [1, 2, 3, 4, 5, 6::real] mod nat 2 = 0 \<and>
   int (length [1, 2, 3, 4, 5, 6::real]) \<le> INT_MAX \<and>
   fst (batchApply PowerSpectrum_apply outputSize demo_object [1, 2, 3, 4, 5, 6] 2) =
     apply_each_slice demo_object [1, 2, 3, 4, 5, 6] (nat 2) \<and>
   (\<exists>out. fst (batchApply PowerSpectrum_apply outputSize demo_object [1, 2, 3, 4, 5, 6] 2) = Inr out \<and>
      int (length out) = 8)"
proof -
  have v: "valid_params (featParams demo_object)" by (rule valid_small_params)
  have B: "(0::int) < 2" by simp
  have dv: "length [1, 2, 3, 4, 5, 6::real] mod nat 2 = 0" by simp
  have L: "int (length [1, 2, 3, 4, 5, 6::real]) \<le> INT_MAX" by (simp add: INT_MAX_def)
  have q: "int (powSpecFeatSz (featParams demo_object)) *
           numFrames (featParams demo_object) (int (length [1, 2, 3, 4, 5, 6::real] div nat 2)) = 4"
    by (simp add: demo_object_def PowerSpectrum_members_def small_params_def numFrames_def
        powSpecFeatSz_def)
  have P: "int (powSpecFeatSz (featParams demo_object)) *
           numFrames (featParams demo_object) (int (length [1, 2, 3, 4, 5, 6::real] div nat 2)) * 2
           \<le> INT_MAX"
    unfolding q by (simp add: INT_MAX_def)
  have os: "outputSize demo_object (int (length [1, 2, 3, 4, 5, 6::real] div nat 2)) = 4"
    using q by (simp add: outputSize_def to_int_def)
  from batchApply_concatenates [OF v B dv L P] obtain out where
    e: "fst (batchApply PowerSpectrum_apply outputSize demo_object [1, 2, 3, 4, 5, 6] 2) =
        apply_each_slice demo_object [1, 2, 3, 4, 5, 6] (nat 2)"
    and r: "fst (batchApply PowerSpectrum_apply outputSize demo_object [1, 2, 3, 4, 5, 6] 2) = Inr out"
    and l: "int (length out) =
            2 * outputSize demo_object (int (length [1, 2, 3, 4, 5, 6::real] div nat 2))"
    by blast
  from l have "int (length out) = 8" unfolding os by simp
  with e r v B dv L show ?thesis by blast
qed

text \<open>
  Claim C2 as stated fails where the size of the whole output does not fit in an
  \<^verbatim>\<open>int\<close>: 70000 utterances of 2000 samples, 31806 values each. Every call of
  \<^verbatim>\<open>apply\<close> returns its vector, but \<^verbatim>\<open>batchApply\<close> sizes the output by an \<^verbatim>\<open>int\<close>
  product that wraps to a negative number, and the vector cannot be created.
\<close>

theorem batchApply_wraps_counterexample:
  "valid_params (featParams dense_object) \<and> (0::int) < 70000 \<and>
   length (replicate 140000000 (0::real)) mod nat 70000 = 0 \<and>
   fst (batchApply PowerSpectrum_apply outputSize dense_object (replicate 140000000 0) 70000) =
     Inl (length_error ''cannot create std::vector larger than max_size()'') \<and>
   fst (batchApply PowerSpectrum_apply outputSize dense_object (replicate 140000000 0) 70000) \<noteq>
     apply_each_slice dense_object (replicate 140000000 0) (nat 70000)"
proof -
  let ?input = "replicate 140000000 (0::real)"
  have fp: "featParams dense_object = dense_params"
    by (simp add: dense_object_def PowerSpectrum_members_def)
  have v: "valid_params (featParams dense_object)"
    by (simp add: fp valid_params_iff dense_params_def)
  have nf: "numFrames dense_params 2000 = 62"
    by (simp add: numFrames_def dense_params_def)
  have K: "powSpecFeatSz dense_params = 513"
    by (simp add: powSpecFeatSz_def dense_params_def)
  have os: "outputSize dense_object 2000 = 31806"
    by (simp add: outputSize_def fp nf K to_int_def)
  have run: "fst (batchApply PowerSpectrum_apply outputSize dense_object ?input 70000) =
             Inl (length_error ''cannot create std::vector larger than max_size()'')"
    by (simp add: batchApply_def Let_def new_vector_def os to_int_def del: upt_rec_numeral)
  have "\<forall>u \<in> set (map (slice_of ?input 2000) [0..<70000]). length u = 2000"
    by (auto simp add: length_slice_of [where B = 70000] simp del: upt_rec_numeral)
  then have "\<forall>r \<in> set (apply_each PowerSpectrum_apply dense_object
                       (map (slice_of ?input 2000) [0..<70000])).
               right_size (nat (int (powSpecFeatSz (featParams dense_object)) *
                                numFrames (featParams dense_object) (int 2000))) r"
    by (intro results_in_range v) (simp_all add: fp nf K INT_MAX_def del: upt_rec_numeral)
  from concat_results_right_size [OF this]
  obtain outs where "concat_results (apply_each PowerSpectrum_apply dense_object
                       (map (slice_of ?input 2000) [0..<70000])) = Inr outs"
    by blast
  then have "apply_each_slice dense_object ?input (nat 70000) = Inr outs"
    by (simp add: apply_each_slice_def del: upt_rec_numeral)
  with run v show ?thesis by simp
qed

section \<open>The size check of the batch loop\<close>

text \<open>
  \<^verbatim>\<open>batchApply\<close> never ends with \<^verbatim>\<open>std::logic_error\<close>, whatever the virtual methods
  of the object do: the only place that throws it is inside the parallel region.
\<close>

lemma loop_not_logic_error:
  "\<not> is_logic_error (fst (batchApply_loop ap input N osz bs feat s))"
proof (induction bs arbitrary: feat s)
  case Nil
  show ?case by simp
next
  case (Cons b bs)
  from utterance_cases [of input N b] show ?case
  proof
    assume "utterance input N b = Inl undefined_behaviour"
    then show ?thesis by simp
  next
    assume "\<exists>u. utterance input N b = Inr u"
    then obtain u where u: "utterance input N b = Inr u" ..
    obtain r s' where r: "ap s u = (r, s')" by (cases "ap s u")
    show ?thesis
    proof (cases r)
      case (Inl e)
      with u r thrown_in_parallel_region_cases [of e] show ?thesis by auto
    next
      case (Inr curFeat)
      with u r Cons.IH show ?thesis by (simp add: thrown_in_parallel_region_def)
    qed
  qed
qed

lemma batchApply_not_logic_error:
  "\<not> is_logic_error (fst (batchApply ap os this input batchSz))"
  by (simp add: batchApply_def Let_def new_vector_def loop_not_logic_error)

text \<open>
  Claim C7. The code at an input that takes the branch of the size check: four
  samples in two utterances, on an object of a derived class whose \<^verbatim>\<open>apply\<close>
  returns one value where its \<^verbatim>\<open>outputSize\<close> predicts two. The first utterance
  returns a vector of the wrong size and the \<^verbatim>\<open>std::logic_error\<close> is thrown, inside
  the parallel region: the call ends in \<^verbatim>\<open>std::terminate\<close>, and the caller receives
  no InternalInconsistency.
\<close>

theorem batchApply_wrong_size_terminates:
  "fst (Derived_apply () [1, 2]) = Inr [0] \<and>
   to_size_t (Derived_outputSize () 2) = 2 \<and>
   fst (batchApply Derived_apply Derived_outputSize () [1, 2, 3, 4] 2) = Inl terminate \<and>
   \<not> is_logic_error (fst (batchApply Derived_apply Derived_outputSize () [1, 2, 3, 4] 2))"
  by (simp add: batchApply_def Let_def new_vector_def to_int_def to_size_t_def upt_conv_Cons
      utterance_def thrown_in_parallel_region_def Derived_apply_def Derived_outputSize_def)

section \<open>Pre-emphasis with coefficient 0\<close>

text \<open>
  Claim C8. With a pre-emphasis coefficient of 0, \<^verbatim>\<open>apply\<close> gives the same vector,
  and leaves the object in the same state, as the pipeline without the pre-emphasis
  stage; its result does not depend on what the pre-emphasis object would do.
\<close>

theorem preEmphasis_zero_is_identity:
  assumes "preemCoef (featParams this) = 0"
  shows "PowerSpectrum_apply this input = apply_without_preEmphasis this input \<and>
         fst (PowerSpectrum_apply (this\<lparr>preEmphasis := g\<rparr>) input) =
           fst (PowerSpectrum_apply this input)"
proof -
  have skipped: "powSpectrumImpl this frames = powSpectrumImpl_without_preEmphasis this frames"
    for frames
    using assms
    by (simp add: powSpectrumImpl_def powSpectrumImpl_without_preEmphasis_def Let_def)
  have unused: "fst (powSpectrumImpl (this\<lparr>preEmphasis := g\<rparr>) frames) =
                fst (powSpectrumImpl this frames)" for frames
    using assms by (simp add: powSpectrumImpl_def Let_def split: sum.split)
  show ?thesis
    by (simp add: PowerSpectrum_apply_def apply_without_preEmphasis_def Let_def skipped unused)
qed

text \<open>
  The small configuration with coefficient 0 on three samples: the frames \<open>[1, 2]\<close>
  and \<open>[2, 3]\<close>, dithered and centred, give \<open>[-1/2, 1/2]\<close> twice.
\<close>

lemma frameSignal_plain: "frameSignal [1, 2, 3::real] (featParams plain_object) = [1, 2, 2, 3]"
  by (simp add: frameSignal_def plain_object_def PowerSpectrum_members_def small_params_def
      numFrames_def upt_conv_Cons)

lemma powSpectrumImpl_plain:
  "fst (powSpectrumImpl plain_object [1, 2, 2, 3]) = Inr [1 / 4, 0, 1 / 4, 0]"
  by (simp add: plain_object_def PowerSpectrum_members_def
      powSpectrumImpl_def Let_def small_params_def demo_classes_def to_int_def to_size_t_def
      new_vector_def upt_conv_Cons zeroMeanFrame_step_def fft_step_def copy_to_def power2_eq_square)

lemma apply_plain: "fst (PowerSpectrum_apply plain_object [1, 2, 3]) = Inr [1 / 4, 0, 1 / 4, 0]"
  by (simp add: PowerSpectrum_apply_def frameSignal_plain powSpectrumImpl_plain)

theorem preEmphasis_zero_is_identity_witness:
  "preemCoef (featParams plain_object) = 0 \<and>
   PowerSpectrum_apply plain_object [1, 2, 3] = apply_without_preEmphasis plain_object [1, 2, 3] \<and>
   fst (apply_without_preEmphasis plain_object [1, 2, 3]) = Inr [1 / 4, 0, 1 / 4, 0]"
proof -
  have c: "preemCoef (featParams plain_object) = 0"
    by (simp add: plain_object_def PowerSpectrum_members_def)
  from preEmphasis_zero_is_identity [OF c, of "[1, 2, 3]"] apply_plain c show ?thesis
    by simp
qed

section \<open>Construction and validation\<close>

lemma not_valid_params_iff:
  "\<not> valid_params p \<longleftrightarrow> samplingFreq p \<le> 0 \<or> frameSizeMs p \<le> 0 \<or> frameStrideMs p \<le> 0 \<or>
     numFrameSizeSamples p \<le> 0 \<or> numFrameStrideSamples p \<le> 0"
  by (auto simp add: valid_params_iff)

lemma validate_cases:
  "validatePowSpecParams p = Inr () \<or> (\<exists>m. validatePowSpecParams p = Inl (invalid_argument m))"
  by (simp add: validatePowSpecParams_def)

text \<open>
  The initialisers come first: when the construction of \<^verbatim>\<open>windowing_\<close> throws, that
  exception is the constructor's, whether or not the parameters pass the checks.
\<close>

lemma constructor_member_failure:
  assumes "Dither_throws env (ditherVal params) = None"
    and "PreEmphasis_throws env (preemCoef params) (numFrameSizeSamples params) = None"
    and "Windowing_throws env (numFrameSizeSamples params) (windowType params) = Some e"
  shows "PowerSpectrum_new env params = Inl e"
  using assms by (simp add: PowerSpectrum_new_def)

text \<open>
  When the three members are constructed, the checks decide: the constructor throws
  \<^verbatim>\<open>std::invalid_argument\<close> exactly when one of the five conditions holds, and
  parameters that pass the checks give the object, unless the set-up of IPP fails.
\<close>

lemma constructor_checks_decide:
  assumes "members_constructed env params"
  shows "(is_invalid_argument (PowerSpectrum_new env params) \<longleftrightarrow>
            samplingFreq params \<le> 0 \<or> frameSizeMs params \<le> 0 \<or> frameStrideMs params \<le> 0 \<or>
            numFrameSizeSamples params \<le> 0 \<or> numFrameStrideSamples params \<le> 0) \<and>
         (valid_params params \<and> backend_ok (library env) \<longrightarrow>
            PowerSpectrum_new env params = Inr (PowerSpectrum_members env params))"
proof (cases "valid_params params")
  case False
  then obtain m where "validatePowSpecParams params = Inl (invalid_argument m)"
    using validate_cases [of params] by (auto simp add: valid_params_def)
  with False assms show ?thesis
    by (simp add: PowerSpectrum_new_def members_constructed_def not_valid_params_iff [symmetric])
next
  case True
  then have "validatePowSpecParams params = Inr ()" by (simp add: valid_params_def)
  with True assms show ?thesis
    by (auto simp add: PowerSpectrum_new_def members_constructed_def
        not_valid_params_iff [symmetric] backend_ok_def split: FFT_LIBRARY.split)
qed


section \<open>The order of the stages\<close>

lemma copy_to_append:
  "length P = off \<Longrightarrow> length src \<le> length rest \<Longrightarrow>
   copy_to (P @ rest) off src = P @ src @ drop (length src) rest"
  by (simp add: copy_to_def)

lemma copy_to_twice:
  "length a = length b \<Longrightarrow> copy_to (copy_to buf 0 a) 0 b = copy_to buf 0 b"
  by (cases "length a \<le> length buf") (simp_all add: copy_to_def min_def)

lemma frame_of_append:
  "length P = f * s \<Longrightarrow> frame_of s (P @ rest) f = take s rest"
  by (simp add: frame_of_def)

lemma length_frame_of:
  "Suc f * s \<le> length frames \<Longrightarrow> length (frame_of s frames f) = s"
  by (simp add: frame_of_def)

text \<open>A loop that rewrites one frame after the other in place.\<close>

lemma fold_in_place:
  assumes g: "\<And>x. length (g x) = length x"
    and len: "length fr = n * s"
    and k: "k \<le> n"
  shows "fold (\<lambda>f fr. copy_to fr (f * s) (g (frame_of s fr f))) [0..<k] fr =
         concat (map (\<lambda>f. g (frame_of s fr f)) [0..<k]) @ drop (k * s) fr"
  using k
proof (induction k)
  case 0
  show ?case by simp
next
  case (Suc k)
  let ?P = "concat (map (\<lambda>f. g (frame_of s fr f)) [0..<k])"
  let ?rest = "drop (k * s) fr"
  from Suc.prems have kn: "k < n" by simp
  then have "Suc k * s \<le> n * s" by (simp add: Suc_leI mult_le_mono1 del: mult_Suc)
  with len have bound: "Suc k * s \<le> length fr" by simp
  have lf: "length (frame_of s fr f) = s" if "f \<le> k" for f
  proof -
    from that have "Suc f * s \<le> Suc k * s" by (simp add: mult_le_mono1 del: mult_Suc)
    then have "Suc f * s \<le> length fr" using bound by (rule order_trans)
    then show ?thesis by (rule length_frame_of)
  qed
  have lP: "length ?P = k * s"
    using length_concat_const [of "[0..<k]" "\<lambda>f. g (frame_of s fr f)" s] lf g by simp
  have IH: "fold (\<lambda>f fr. copy_to fr (f * s) (g (frame_of s fr f))) [0..<k] fr = ?P @ ?rest"
    using Suc.IH kn by simp
  have fr_k: "frame_of s (?P @ ?rest) k = frame_of s fr k"
    using lP by (simp add: frame_of_append frame_of_def)
  have "length (g (frame_of s fr k)) = s" using g lf [of k] by simp
  moreover have "s \<le> length ?rest" using bound by simp
  ultimately have "copy_to (?P @ ?rest) (k * s) (g (frame_of s fr k)) =
                   ?P @ g (frame_of s fr k) @ drop s ?rest"
    using copy_to_append [OF lP, of "g (frame_of s fr k)" ?rest] by simp
  then show ?case
    by (simp add: IH fr_k add.commute)
qed

lemma zeroMean_loop:
  assumes s: "0 < s" "int s \<le> INT_MAX" and len: "length fr = n * s"
  shows "fold (zeroMeanFrame_step (int s)) [0..<n] (fr :: ('a::field) list) = per_frame n s zero_mean fr"
proof -
  let ?g = "\<lambda>frame :: 'a list. map (\<lambda>x. x - foldl (+) 0 frame / of_nat s) frame"
  have sz: "to_size_t (int s) = s" using s by (simp add: to_size_t_id)
  have step: "zeroMeanFrame_step (int s) = (\<lambda>f fr. copy_to fr (f * s) (?g (frame_of s fr f)))"
    by (intro ext) (simp add: zeroMeanFrame_step_def Let_def sz frame_of_def)
  have "fold (\<lambda>f fr. copy_to fr (f * s) (?g (frame_of s fr f))) [0..<n] fr =
        concat (map (\<lambda>f. ?g (frame_of s fr f)) [0..<n]) @ drop (n * s) fr"
    by (rule fold_in_place [OF _ len]) simp_all
  also have "\<dots> = concat (map (\<lambda>f. ?g (frame_of s fr f)) [0..<n])" using len by simp
  also have "map (\<lambda>f. ?g (frame_of s fr f)) [0..<n] = map (\<lambda>f. zero_mean (frame_of s fr f)) [0..<n]"
  proof (rule map_cong [OF refl])
    fix f assume "f \<in> set [0..<n]"
    then have "Suc f * s \<le> n * s" by (simp add: Suc_leI mult_le_mono1 del: mult_Suc)
    with len have "Suc f * s \<le> length fr" by simp
    then have "length (frame_of s fr f) = s" by (rule length_frame_of)
    then show "?g (frame_of s fr f) = zero_mean (frame_of s fr f)" by (simp add: zero_mean_def)
  qed
  finally show ?thesis by (simp add: step per_frame_def)
qed

lemma fft_loop:
  assumes s: "0 < s" "int s \<le> INT_MAX" and K: "int K \<le> INT_MAX"
    and len: "length frames = n * s" and dft: "length dft0 = n * K" and k: "k \<le> n"
  shows "fold (fft_step t (int s) (int K) frames) [0..<k] (dft0, buf0) =
           (concat (map (\<lambda>f. map (t (copy_to buf0 0 (frame_of s frames f))) [0..<K]) [0..<k]) @
              drop (k * K) dft0,
            if k = 0 then buf0 else copy_to buf0 0 (frame_of s frames (k - 1)))"
  using k
proof (induction k)
  case 0
  show ?case by simp
next
  case (Suc k)
  let ?bins = "\<lambda>f. map (t (copy_to buf0 0 (frame_of s frames f))) [0..<K]"
  let ?D = "concat (map ?bins [0..<k])"
  let ?buf = "if k = 0 then buf0 else copy_to buf0 0 (frame_of s frames (k - 1))"
  from Suc.prems have kn: "k < n" by simp
  have sz: "to_size_t (int s) = s" using s by (simp add: to_size_t_id)
  have Kz: "to_size_t (int K) = K" using K by (simp add: to_size_t_id)
  have lf: "length (frame_of s frames f) = s" if "f < n" for f
  proof -
    from that have "Suc f * s \<le> n * s" by (simp add: Suc_leI mult_le_mono1 del: mult_Suc)
    with len have "Suc f * s \<le> length frames" by simp
    then show ?thesis by (rule length_frame_of)
  qed
  have buf: "copy_to ?buf 0 (frame_of s frames k) = copy_to buf0 0 (frame_of s frames k)"
  proof (cases "k = 0")
    case True
    then show ?thesis by simp
  next
    case False
    with kn have "length (frame_of s frames (k - 1)) = length (frame_of s frames k)"
      by (simp add: lf)
    with False show ?thesis by (simp add: copy_to_twice)
  qed
  have lD: "length ?D = k * K"
    using length_concat_const [of "[0..<k]" ?bins K] by simp
  have "Suc k * K \<le> n * K" using kn by (simp add: Suc_leI mult_le_mono1 del: mult_Suc)
  then have "K \<le> length (drop (k * K) dft0)" using dft by simp
  then have cp: "copy_to (?D @ drop (k * K) dft0) (k * K) (?bins k) =
             ?D @ ?bins k @ drop K (drop (k * K) dft0)"
    using copy_to_append [OF lD, of "?bins k" "drop (k * K) dft0"] by simp
  have IH: "fold (fft_step t (int s) (int K) frames) [0..<k] (dft0, buf0) =
            (?D @ drop (k * K) dft0, ?buf)"
    using Suc.IH kn by simp
  have "fft_step t (int s) (int K) frames k (?D @ drop (k * K) dft0, ?buf) =
        (?D @ ?bins k @ drop K (drop (k * K) dft0), copy_to buf0 0 (frame_of s frames k))"
    unfolding fft_step_def Let_def sz Kz snd_conv fst_conv nat_int
    using buf cp by (simp only: frame_of_def)
  then show ?case
    by (simp add: IH add.commute)
qed

lemma length_fold_zeroMean:
  "length (fold (zeroMeanFrame_step nSamples) fs fr) = length fr"
  by (induction fs arbitrary: fr) (simp_all add: zeroMeanFrame_step_def Let_def)

lemma powSpectrumImpl_pipeline:
  fixes this :: "('a::field) PowerSpectrum"
  assumes w: "0 < numFrameSizeSamples (featParams this)"
      "numFrameSizeSamples (featParams this) \<le> INT_MAX"
    and len: "length frames = n * nat (numFrameSizeSamples (featParams this))"
    and n: "0 < n" "int n \<le> INT_MAX"
    and Kn: "int (filterFreqResponseLen (featParams this)) * int n \<le> INT_MAX"
    and st: "in_place (dither this)" "in_place (preEmphasis this)" "in_place (windowing this)"
  shows "fst (powSpectrumImpl this frames) = Inr (pipeline this frames)"
proof -
  let ?p = "featParams this"
  let ?K = "filterFreqResponseLen ?p"
  define s where "s = nat (numFrameSizeSamples ?p)"
  have s: "0 < s" "int s \<le> INT_MAX" "int s = numFrameSizeSamples ?p"
    using w by (simp_all add: s_def)
  have ns: "to_int (numFrameSizeSamples ?p) = int s" using w s by (simp add: to_int_nonneg)
  have sz: "to_size_t (int s) = s" using s by (simp add: to_size_t_id)
  have dv: "length frames div s = n" using len s by (simp add: s_def)
  have nt: "to_int (int n) = int n" using n by (simp add: to_int_nonneg)
  have nz: "to_size_t (int n) = n" using n by (simp add: to_size_t_id)
  have "int ?K * 1 \<le> int ?K * int n" using n by (intro mult_left_mono) simp_all
  with Kn have K: "int ?K \<le> INT_MAX" by simp
  then have Kt: "to_int (int ?K) = int ?K" by (simp add: to_int_nonneg)
  have "0 \<le> int ?K * int n" by simp
  then have prod: "to_int (int ?K * int n) = int (?K * n)" using Kn by (simp add: to_int_nonneg)
  have vec: "new_vector (int (?K * n)) = (Inr (replicate (n * ?K) 0) :: failure + 'a list)"
    by (simp add: new_vector_def mult.commute del: of_nat_mult)
  define frames1 where "frames1 = stage_if (ditherVal ?p \<noteq> 0) (dither this) frames"
  define frames2 where "frames2 = stage_if (zeroMeanFrame ?p) (per_frame n s zero_mean) frames1"
  define frames3 where "frames3 = stage_if (preemCoef ?p \<noteq> 0) (preEmphasis this) frames2"
  define frames4 where "frames4 = windowing this frames3"
  have l1: "length frames1 = n * s"
    using st(1) len by (simp add: frames1_def stage_if_def in_place_def s_def)
  have zm: "fold (zeroMeanFrame_step (int s)) [0..<n] frames1 = per_frame n s zero_mean frames1"
    using s(1,2) l1 by (rule zeroMean_loop)
  have l2: "length frames2 = n * s"
    using l1 length_fold_zeroMean [of "int s" "[0..<n]" frames1]
    by (simp add: frames2_def stage_if_def zm)
  have l3: "length frames3 = n * s"
    using st(2) l2 by (simp add: frames3_def stage_if_def in_place_def)
  have l4: "length frames4 = n * s"
    using st(3) l3 by (simp add: frames4_def in_place_def)
  have fft: "fst (fold (fft_step (fftSetup this) (int s) (int ?K) frames4) [0..<n]
                    (replicate (n * ?K) 0, inFftBuf this)) =
             per_frame n s (first_bins this) frames4"
    using fft_loop [OF s(1,2) K l4, of "replicate (n * ?K) 0" n "fftSetup this" "inFftBuf this"]
    by (simp add: per_frame_def first_bins_def)
  have pipe: "pipeline this frames = per_frame n s (first_bins this) frames4"
    by (simp add: pipeline_def Let_def frames4_def frames3_def frames2_def frames1_def dv
        flip: s_def)
  have "fst (powSpectrumImpl this frames) =
        Inr (fst (fold (fft_step (fftSetup this) (int s) (int ?K) frames4) [0..<n]
               (replicate (n * ?K) 0, inFftBuf this)))"
    unfolding powSpectrumImpl_def Let_def ns sz dv nt nz Kt prod vec
    using l1 zm
    by (simp add: frames4_def frames3_def frames2_def frames1_def stage_if_def
        split: if_splits)
  with fft pipe show ?thesis by simp
qed

text \<open>
  Claim C5, amended. For parameters that pass the checks, stages that work in place,
  and an input whose length and whose output size \<open>K * numFrames N\<close> fit in an
  \<^verbatim>\<open>int\<close>, \<^verbatim>\<open>apply\<close> returns what the stages give in this order: dither when the
  amplitude is not 0, per-frame zero-mean when the flag is set, pre-emphasis when
  the coefficient is not 0, windowing always, then for each frame the first \<open>K\<close>
  bins of its transform. The members are arbitrary functions, so no other order and
  no repetition gives this equation.
\<close>

theorem apply_runs_pipeline:
  fixes this :: "('a::field) PowerSpectrum"
  assumes v: "valid_params (featParams this)"
    and L: "int (length input) \<le> INT_MAX"
    and P: "int (powSpecFeatSz (featParams this)) *
            numFrames (featParams this) (int (length input)) \<le> INT_MAX"
    and st: "in_place (dither this)" "in_place (preEmphasis this)" "in_place (windowing this)"
  shows "fst (PowerSpectrum_apply this input) =
         Inr (pipeline this (frameSignal input (featParams this)))"
proof (cases "frameSignal input (featParams this) = []")
  case True
  then show ?thesis
    by (simp add: PowerSpectrum_apply_def pipeline_def per_frame_def)
next
  case False
  let ?p = "featParams this"
  let ?nf = "numFrames ?p (int (length input))"
  from v have w: "0 < numFrameSizeSamples ?p" and sd: "0 < numFrameStrideSamples ?p"
    by (simp_all add: valid_params_iff)
  have nn: "0 \<le> ?nf" by (rule numFrames_nonneg)
  have fl: "length (frameSignal input ?p) = nat ?nf * nat (numFrameSizeSamples ?p)"
    using sd w by (rule length_frameSignal)
  with False have pos: "0 < nat ?nf" by (cases "nat ?nf") auto
  have "numFrameSizeSamples ?p \<le> int (length input)"
  proof (rule ccontr)
    assume "\<not> numFrameSizeSamples ?p \<le> int (length input)"
    with sd have "?nf = 0" by (simp add: numFrames_short)
    with pos show False by simp
  qed
  with L have w2: "numFrameSizeSamples ?p \<le> INT_MAX" by simp
  have "?nf \<le> int (length input)" using w sd by (intro numFrames_le_input) simp_all
  with L nn have n2: "int (nat ?nf) \<le> INT_MAX" by simp
  have Kn: "int (filterFreqResponseLen ?p) * int (nat ?nf) \<le> INT_MAX"
    using P nn by (simp add: powSpecFeatSz_def)
  have "fst (powSpectrumImpl this (frameSignal input ?p)) =
        Inr (pipeline this (frameSignal input ?p))"
    using w w2 fl pos n2 Kn st by (rule powSpectrumImpl_pipeline)
  with False show ?thesis by (simp add: PowerSpectrum_apply_def)
qed

lemma in_place_demo:
  "in_place (dither (PowerSpectrum_members demo_classes p))"
  "in_place (preEmphasis (PowerSpectrum_members demo_classes p))"
  "in_place (windowing (PowerSpectrum_members demo_classes p))"
  by (simp_all add: in_place_def PowerSpectrum_members_def demo_classes_def)

text \<open>
  Claim C5 as stated fails where the output size does not fit in an \<^verbatim>\<open>int\<close>: for
  frames of 64 ms every 1 ms and 70000000 samples there are 4374937 frames, the
  product with 513 wraps to a negative \<^verbatim>\<open>int\<close>, the vector \<^verbatim>\<open>dft\<close> cannot be
  created after the windowing, and the transform stage does not run.
\<close>

theorem apply_wraps_counterexample:
  "valid_params (featParams dense_object) \<and>
   in_place (dither dense_object) \<and> in_place (preEmphasis dense_object) \<and>
   in_place (windowing dense_object) \<and>
   frameSignal (replicate 70000000 0) (featParams dense_object) \<noteq> [] \<and>
   fst (PowerSpectrum_apply dense_object (replicate 70000000 0)) =
     Inl (length_error ''cannot create std::vector larger than max_size()'') \<and>
   fst (PowerSpectrum_apply dense_object (replicate 70000000 0)) \<noteq>
     Inr (pipeline dense_object (frameSignal (replicate 70000000 0) (featParams dense_object)))"
proof -
  define F where "F = frameSignal (replicate 70000000 (0::real)) (featParams dense_object)"
  have fp: "featParams dense_object = dense_params"
    by (simp add: dense_object_def PowerSpectrum_members_def)
  have v: "valid_params (featParams dense_object)"
    by (simp add: fp valid_params_iff dense_params_def)
  have "length F = nat (numFrames (featParams dense_object) (int (length (replicate 70000000 (0::real))))) *
          nat (numFrameSizeSamples (featParams dense_object))"
    unfolding F_def by (rule length_frameSignal) (simp_all add: fp dense_params_def)
  then have lF: "length F = 4374937 * 1024"
    by (simp add: fp dense_params_def numFrames_def)
  then have ne: "F \<noteq> []" by auto
  have dv: "length F div 1024 = 4374937" unfolding lF by simp
  have "fst (powSpectrumImpl dense_object F) =
        Inl (length_error ''cannot create std::vector larger than max_size()'')"
    unfolding powSpectrumImpl_def Let_def fp
    by (simp add: dense_params_def to_int_def to_size_t_def dv new_vector_def)
  with ne have run: "fst (PowerSpectrum_apply dense_object (replicate 70000000 0)) =
        Inl (length_error ''cannot create std::vector larger than max_size()'')"
    by (simp add: PowerSpectrum_apply_def F_def)
  from v in_place_demo [of dense_params] ne run show ?thesis
    by (simp add: dense_object_def F_def)
qed

text \<open>
  The small configuration on three samples: every stage runs, and the four values
  are those of the stages applied by hand.
\<close>

lemma frameSignal_demo: "frameSignal [1, 2, 3::real] (featParams demo_object) = [1, 2, 2, 3]"
  by (simp add: frameSignal_def demo_object_def PowerSpectrum_members_def small_params_def
      numFrames_def upt_conv_Cons)

lemma members_demo:
  "featParams demo_object = small_params"
  "dither demo_object = (\<lambda>xs. map (\<lambda>x. x + 1) xs)"
  "preEmphasis demo_object = (\<lambda>xs. map (\<lambda>(h, x). x - 1 / 2 * h) (zip (0 # xs) xs))"
  "windowing demo_object = (\<lambda>xs. map (\<lambda>x. x * 1) xs)"
  "fftSetup demo_object = (\<lambda>buf k. (foldl (+) 0 (take (Suc k) buf))\<^sup>2)"
  "inFftBuf demo_object = [0, 0]"
  by (simp_all add: demo_object_def PowerSpectrum_members_def small_params_def demo_classes_def
      numeral_2_eq_2)

lemma zero_mean_demo: "per_frame 2 2 zero_mean [2, 3, 3, 4::real] = [- 1 / 2, 1 / 2, - 1 / 2, 1 / 2]"
  by (simp add: per_frame_def frame_of_def zero_mean_def upt_conv_Cons)

lemma first_bins_demo:
  "per_frame 2 2 (first_bins demo_object) [- 1 / 2, 3 / 4, - 3 / 4, 3 / 4] = [1 / 4, 1 / 16, 9 / 16, 0]"
  by (simp add: per_frame_def frame_of_def first_bins_def members_demo small_params_def
      copy_to_def upt_conv_Cons power2_eq_square)

lemma pipeline_demo: "pipeline demo_object [1, 2, 2, 3] = [1 / 4, 1 / 16, 9 / 16, 0]"
proof -
  have s: "nat (numFrameSizeSamples small_params) = 2" by (simp add: small_params_def)
  have n: "length [1, 2, 2, 3::real] div 2 = 2" by simp
  have "pipeline demo_object [1, 2, 2, 3] =
        per_frame 2 2 (first_bins demo_object)
          (windowing demo_object (preEmphasis demo_object
             (per_frame 2 2 zero_mean (dither demo_object [1, 2, 2, 3]))))"
    by (simp only: pipeline_def Let_def members_demo(1) s n)
       (simp add: stage_if_def small_params_def)
  also have "dither demo_object [1, 2, 2, 3] = [2, 3, 3, 4]"
    by (simp add: members_demo)
  also have "per_frame 2 2 zero_mean [2, 3, 3, 4::real] = [- 1 / 2, 1 / 2, - 1 / 2, 1 / 2]"
    by (rule zero_mean_demo)
  also have "windowing demo_object (preEmphasis demo_object [- 1 / 2, 1 / 2, - 1 / 2, 1 / 2]) =
             [- 1 / 2, 3 / 4, - 3 / 4, 3 / 4]"
    by (simp add: members_demo)
  also have "per_frame 2 2 (first_bins demo_object) [- 1 / 2, 3 / 4, - 3 / 4, 3 / 4] =
             [1 / 4, 1 / 16, 9 / 16, 0]"
    by (rule first_bins_demo)
  finally show ?thesis .
qed

theorem apply_runs_pipeline_witness:
  "valid_params (featParams demo_object) \<and>
   int (length [1, 2, 3::real]) \<le> INT_MAX \<and>
   in_place (dither demo_object) \<and> in_place (preEmphasis demo_object) \<and>
   in_place (windowing demo_object) \<and>
   fst (PowerSpectrum_apply demo_object [1, 2, 3]) = Inr [1 / 4, 1 / 16, 9 / 16, 0]"
proof -
  have v: "valid_params (featParams demo_object)" by (rule valid_small_params)
  have L: "int (length [1, 2, 3::real]) \<le> INT_MAX" by (simp add: INT_MAX_def)
  have P: "int (powSpecFeatSz (featParams demo_object)) *
           numFrames (featParams demo_object) (int (length [1, 2, 3::real])) \<le> INT_MAX"
    by (simp add: demo_object_def PowerSpectrum_members_def small_params_def numFrames_def
        powSpecFeatSz_def INT_MAX_def)
  have st: "in_place (dither demo_object)" "in_place (preEmphasis demo_object)"
    "in_place (windowing demo_object)"
    using in_place_demo [of small_params] by (simp_all add: demo_object_def)
  from apply_runs_pipeline [OF v L P st] v L st show ?thesis
    by (simp add: frameSignal_demo pipeline_demo)
qed

end
